theory Spec2Isabelle
  imports Complex_Main
begin


section \<open>The retrieval core of the RAG assistant (embeddings\_manager.py)\<close>

text \<open>
  The class \<^verbatim>\<open>EmbeddingsManager\<close> owns a chunk sequence and a FAISS index, writes and
  reads them as a snapshot of two files, and answers queries through the index and a
  relevance filter.

  Python dictionaries are objects: \<^verbatim>\<open>search_similar_chunks\<close> hands the very chunk
  objects of \<^verbatim>\<open>self.chunks\<close> to \<^verbatim>\<open>filter_relevant_chunks\<close>, which writes into their
  metadata. So chunks live in a store, and a chunk sequence is a list of addresses.
  Every producer of chunks (pdf\_loader.py lines 77-84, web\_scraper.py lines 236-243)
  builds the metadata dictionary as a fresh literal inside the chunk literal, so a chunk
  and its metadata are one cell of the store.

  Scores are numpy floats that the code only compares; they are modelled as reals
  (no NaN). The scores that FAISS returns are float32 and the threshold is a Python
  float, and how numpy compares the two depends on its version: numpy 2 rounds the
  threshold to float32 before it compares, numpy 1 compares in double precision. So the
  threshold enters the comparison of line 140 through a conversion that belongs to the
  state, \<open>threshold_cast\<close>. The embedding model and the FAISS search are library code: they are
  parameters of the model, and \<open>EmbeddingError\<close> and \<open>SearchError\<close> stand for whatever
  they raise. A method returns its result, or the error it raises, together with the
  state it leaves behind.
\<close>

subsection \<open>Data\<close>

record meta =
  source :: string
  chunk_id :: int
  mtype :: string
  relevance_score :: "real option"

record chunk =
  chunk_text :: string
  chunk_metadata :: meta

type_synonym addr = nat
type_synonym store = "addr \<Rightarrow> chunk"
type_synonym vector = "real list"

datatype error = ValueError | IndexError | EmbeddingError | SearchError | IOError

text \<open>\<^verbatim>\<open>faiss.IndexFlatIP(dimension)\<close> followed by \<^verbatim>\<open>add\<close>: the dimension and the rows
  added so far, in order. \<^verbatim>\<open>ntotal\<close> is the size of the index.\<close>

record faiss_index =
  dimension :: nat
  rows :: "vector list"

definition ntotal :: "faiss_index \<Rightarrow> nat" where
  "ntotal ix = length (rows ix)"

definition IndexFlatIP :: "nat \<Rightarrow> faiss_index" where
  "IndexFlatIP dm = \<lparr>dimension = dm, rows = []\<rparr>"

definition index_add :: "faiss_index \<Rightarrow> vector list \<Rightarrow> faiss_index" where
  "index_add ix vs = ix\<lparr>rows := rows ix @ vs\<rparr>"

text \<open>A pickled chunk list: the chunk values, in list order. What \<^verbatim>\<open>pickle\<close> adds to
  that, the sharing of an object that occurs twice in one list, is not tracked: no
  producer of chunk lists repeats an object.\<close>

type_synonym pickled = "chunk list"

record manager =
  model :: "string list \<Rightarrow> error + vector list"
  index :: "faiss_index option"
  chunks :: "addr list option"
  embeddings_folder :: string
  relevance_threshold :: real

text \<open>The state a method runs in: the manager object, the store of chunk objects with
  its allocation pointer, and the files of the storage directory. File names ending in
  \<^verbatim>\<open>_index.faiss\<close> and in \<^verbatim>\<open>_chunks.pkl\<close> never coincide, so the directory is two
  maps from path to content, one per kind of artifact. A file that exists has the
  content of its kind and can be read. Writing a file needs its directory: the storage
  folder exists, for \<^verbatim>\<open>__init__\<close> creates it (lines 22-23), and \<open>directories\<close> are the
  other directories that exist. Nothing in the class creates a directory below the
  folder.\<close>

record world =
  mgr :: manager
  heap :: store
  next_addr :: addr
  index_files :: "string \<rightharpoonup> faiss_index"
  chunk_files :: "string \<rightharpoonup> pickled"
  directories :: "string set"
  threshold_cast :: "real \<Rightarrow> real"

text \<open>\<^verbatim>\<open>__init__\<close> (lines 8-23). The literal \<^verbatim>\<open>0.65\<close> is the double nearest to 0.65; no
  double and no float32 lies between the two, so both compare alike with every score.\<close>

definition init_manager :: "(string list \<Rightarrow> error + vector list) \<Rightarrow> manager" where
  "init_manager m =
     \<lparr>model = m, index = None, chunks = None,
      embeddings_folder = ''embeddings'', relevance_threshold = 65 / 100\<rparr>"

subsection \<open>The relevance filter (lines 121-152)\<close>

text \<open>\<^verbatim>\<open>chunk["metadata"]["relevance_score"] = float(score)\<close>: a write into the object.\<close>

definition set_relevance_score :: "store \<Rightarrow> addr \<Rightarrow> real \<Rightarrow> store" where
  "set_relevance_score h a s =
     h(a := (h a)\<lparr>chunk_metadata := (chunk_metadata (h a))\<lparr>relevance_score := Some s\<rparr>\<rparr>)"

text \<open>Line 140, \<^verbatim>\<open>score >= self.relevance_threshold\<close>: numpy first converts the
  threshold to the type in which it compares (\<open>threshold_cast\<close>: to float32 under numpy 2,
  not at all under numpy 1) and then compares the two numbers exactly. \<open>np_threshold\<close> is
  the converted threshold; the loop of the filter runs with it.\<close>

definition np_threshold :: "world \<Rightarrow> real" where
  "np_threshold w = threshold_cast w (relevance_threshold (mgr w))"

text \<open>The loop of lines 138-143 over \<^verbatim>\<open>zip(chunks, scores)\<close>; \<open>rel\<close> is
  \<^verbatim>\<open>relevant_chunks\<close>.\<close>

fun mark_relevant :: "real \<Rightarrow> store \<Rightarrow> (addr \<times> real) list \<Rightarrow> addr list \<Rightarrow> store \<times> addr list" where
  "mark_relevant thr h [] rel = (h, rel)"
| "mark_relevant thr h ((c, s) # xs) rel =
     (if thr \<le> s then mark_relevant thr (set_relevance_score h c s) xs (rel @ [c])
      else mark_relevant thr h xs rel)"

text \<open>\<^verbatim>\<open>np.argmax\<close>: the first position of the maximum; ValueError on an empty
  sequence. \<open>argmax_from xs i b v\<close> scans \<open>xs\<close>, whose head has position \<open>i\<close>, with the
  best position \<open>b\<close> and its value \<open>v\<close> so far.\<close>

fun argmax_from :: "real list \<Rightarrow> nat \<Rightarrow> nat \<Rightarrow> real \<Rightarrow> nat" where
  "argmax_from [] i b v = b"
| "argmax_from (x # xs) i b v =
     (if v < x then argmax_from xs (Suc i) i x else argmax_from xs (Suc i) b v)"

definition np_argmax :: "real list \<Rightarrow> error + nat" where
  "np_argmax xs = (case xs of [] \<Rightarrow> Inl ValueError | x # ys \<Rightarrow> Inr (argmax_from ys 1 0 x))"

definition filter_relevant_chunks ::
  "world \<Rightarrow> string \<Rightarrow> addr list \<Rightarrow> real list \<Rightarrow> (error + addr list) \<times> world" where
  "filter_relevant_chunks w query cs scores =
     (if cs = [] then (Inr [], w)
      else
        (case mark_relevant (np_threshold w) (heap w) (zip cs scores) [] of
           (h1, relevant_chunks) \<Rightarrow>
             if relevant_chunks = [] \<and> cs \<noteq> [] then
               (case np_argmax scores of
                  Inl e \<Rightarrow> (Inl e, w\<lparr>heap := h1\<rparr>)
                | Inr top_idx \<Rightarrow>
                    if top_idx < length cs then
                      (Inr [cs ! top_idx],
                       w\<lparr>heap := set_relevance_score h1 (cs ! top_idx) (scores ! top_idx)\<rparr>)
                    else (Inl IndexError, w\<lparr>heap := h1\<rparr>))
             else (Inr relevant_chunks, w\<lparr>heap := h1\<rparr>)))"

subsection \<open>Paths and pickles\<close>

text \<open>\<^verbatim>\<open>os.path.join\<close> of two components (POSIX): an absolute second component
  replaces the first.\<close>

definition os_path_join :: "string \<Rightarrow> string \<Rightarrow> string" where
  "os_path_join a b =
     (if b \<noteq> [] \<and> hd b = CHR ''/'' then b
      else if a = [] \<or> last a = CHR ''/'' then a @ b
      else a @ ''/'' @ b)"

definition index_path :: "manager \<Rightarrow> string \<Rightarrow> string" where
  "index_path m filename_prefix =
     os_path_join (embeddings_folder m) (filename_prefix @ ''_index.faiss'')"

definition chunks_path :: "manager \<Rightarrow> string \<Rightarrow> string" where
  "chunks_path m filename_prefix =
     os_path_join (embeddings_folder m) (filename_prefix @ ''_chunks.pkl'')"

text \<open>\<^verbatim>\<open>os.path.dirname\<close> (POSIX): the path up to its last slash, without trailing
  slashes unless it consists of slashes.\<close>

definition dirname :: "string \<Rightarrow> string" where
  "dirname p =
     (let head = rev (dropWhile (\<lambda>c. c \<noteq> CHR ''/'') (rev p))
      in if head \<noteq> [] \<and> \<not> list_all (\<lambda>c. c = CHR ''/'') head
         then rev (dropWhile (\<lambda>c. c = CHR ''/'') (rev head))
         else head)"

text \<open>\<^verbatim>\<open>os.path.basename\<close>: what follows the last slash.\<close>

definition basename :: "string \<Rightarrow> string" where
  "basename p = rev (takeWhile (\<lambda>c. c \<noteq> CHR ''/'') (rev p))"

text \<open>A name that a POSIX file system takes for a new file: no NUL byte in it, and a last
  component of at most 255 bytes.\<close>

definition valid_name :: "string \<Rightarrow> bool" where
  "valid_name filename = (CHR 0x00 \<notin> set filename \<and> length (basename filename) \<le> 255)"

text \<open>Whether the file \<open>filename\<close>, joined to the storage folder, can be written: its name
  must be valid; a name without a slash then lies in the folder itself; any other needs
  its directory to exist.\<close>

definition writable :: "world \<Rightarrow> string \<Rightarrow> bool" where
  "writable w filename =
     (valid_name filename \<and>
      (if CHR ''/'' \<in> set filename
       then dirname (os_path_join (embeddings_folder (mgr w)) filename) \<in> directories w
       else True))"

definition default_prefix :: string where
  "default_prefix = ''university_combined''"

text \<open>\<^verbatim>\<open>pickle.dump(self.chunks, f)\<close> writes the objects as they are in the store at
  that moment.\<close>

definition pickle_dump :: "store \<Rightarrow> addr list \<Rightarrow> pickled" where
  "pickle_dump h cs = map h cs"

fun store_objs :: "store \<Rightarrow> addr \<Rightarrow> chunk list \<Rightarrow> store" where
  "store_objs h n [] = h"
| "store_objs h n (x # xs) = store_objs (h(n := x)) (Suc n) xs"

text \<open>\<^verbatim>\<open>pickle.load(f)\<close> builds new objects, at addresses not used before, and returns
  the list of them.\<close>

definition pickle_load :: "world \<Rightarrow> pickled \<Rightarrow> addr list \<times> world" where
  "pickle_load w objs =
     ([next_addr w ..< next_addr w + length objs],
      w\<lparr>heap := store_objs (heap w) (next_addr w) objs,
        next_addr := next_addr w + length objs\<rparr>)"

subsection \<open>Build, persist, load, combine (lines 25-119)\<close>

text \<open>\<^verbatim>\<open>save_embeddings\<close> (below) writes the index file, then the chunk file; either
  write raises when the directory of the file is missing, and the first file stays
  written when the second fails.

  \<^verbatim>\<open>create_embeddings\<close>: \<^verbatim>\<open>self.chunks\<close> is assigned first (line 32), then the
  texts are encoded (line 36), which may raise. \<^verbatim>\<open>embeddings.shape[1]\<close> (line 39) is
  the length of a row; the encoder returns a one-dimensional empty array for no
  texts, on which \<^verbatim>\<open>shape[1]\<close> raises IndexError. The state at an exception is the
  state reached so far.\<close>

definition create_embeddings :: "world \<Rightarrow> addr list \<Rightarrow> (error + vector list) \<times> world" where
  "create_embeddings w cs =
     (let w1 = w\<lparr>mgr := (mgr w)\<lparr>chunks := Some cs\<rparr>\<rparr>;
          texts = map (\<lambda>c. chunk_text (heap w1 c)) cs
      in case model (mgr w1) texts of
           Inl e \<Rightarrow> (Inl e, w1)
         | Inr embeddings \<Rightarrow>
             (case embeddings of
                [] \<Rightarrow> (Inl IndexError, w1)
              | v # _ \<Rightarrow>
                  (Inr embeddings,
                   w1\<lparr>mgr := (mgr w1)\<lparr>index :=
                          Some (index_add (IndexFlatIP (length v)) embeddings)\<rparr>\<rparr>)))"

definition save_embeddings :: "world \<Rightarrow> string \<Rightarrow> (error + string \<times> string) \<times> world" where
  "save_embeddings w filename_prefix =
     (case (index (mgr w), chunks (mgr w)) of
        (Some ix, Some cs) \<Rightarrow>
          (let ip = index_path (mgr w) filename_prefix in
           if \<not> writable w (filename_prefix @ ''_index.faiss'') then (Inl IOError, w)
           else
             (let w1 = w\<lparr>index_files := (index_files w)(ip \<mapsto> ix)\<rparr>;
                  cp = chunks_path (mgr w) filename_prefix
              in if \<not> writable w1 (filename_prefix @ ''_chunks.pkl'') then (Inl IOError, w1)
                 else
                   (Inr (ip, cp),
                    w1\<lparr>chunk_files := (chunk_files w1)(cp \<mapsto> pickle_dump (heap w1) cs)\<rparr>)))
      | _ \<Rightarrow> (Inl ValueError, w))"

definition load_embeddings :: "world \<Rightarrow> string \<Rightarrow> bool \<times> world" where
  "load_embeddings w filename_prefix =
     (case (index_files w (index_path (mgr w) filename_prefix),
            chunk_files w (chunks_path (mgr w) filename_prefix)) of
        (Some ix, Some pk) \<Rightarrow>
          (let w1 = w\<lparr>mgr := (mgr w)\<lparr>index := Some ix\<rparr>\<rparr>
           in case pickle_load w1 pk of
                (cs, w2) \<Rightarrow> (True, w2\<lparr>mgr := (mgr w2)\<lparr>chunks := Some cs\<rparr>\<rparr>))
      | _ \<Rightarrow> (False, w))"

text \<open>The loop of lines 104-111; \<open>None\<close> is the \<^verbatim>\<open>return False\<close> of line 107.\<close>

fun load_sources :: "world \<Rightarrow> string list \<Rightarrow> addr list \<Rightarrow> addr list option \<times> world" where
  "load_sources w [] all_chunks = (Some all_chunks, w)"
| "load_sources w (src # srcs) all_chunks =
     (case chunk_files w (chunks_path (mgr w) src) of
        None \<Rightarrow> (None, w)
      | Some pk \<Rightarrow>
          (case pickle_load w pk of
             (cs, w1) \<Rightarrow> load_sources w1 srcs (all_chunks @ cs)))"

definition combine_embeddings :: "world \<Rightarrow> string list \<Rightarrow> (error + bool) \<times> world" where
  "combine_embeddings w sources =
     (case load_sources w sources [] of
        (None, w1) \<Rightarrow> (Inr False, w1)
      | (Some all_chunks, w1) \<Rightarrow>
          (case create_embeddings w1 all_chunks of
             (Inl e, w2) \<Rightarrow> (Inl e, w2)
           | (Inr _, w2) \<Rightarrow>
               (case save_embeddings w2 ''university_combined'' of
                  (Inl e, w3) \<Rightarrow> (Inl e, w3)
                | (Inr _, w3) \<Rightarrow> (Inr True, w3))))"

subsection \<open>Search (lines 154-185)\<close>

text \<open>\<^verbatim>\<open>self.chunks[idx]\<close>: a negative index counts from the end; outside
  \<open>[-len, len)\<close> it raises IndexError.\<close>

definition py_index :: "addr list \<Rightarrow> int \<Rightarrow> error + addr" where
  "py_index cs idx =
     (if 0 \<le> idx \<and> idx < int (length cs) then Inr (cs ! nat idx)
      else if idx < 0 \<and> - int (length cs) \<le> idx then Inr (cs ! nat (int (length cs) + idx))
      else Inl IndexError)"

text \<open>The loop of lines 177-180 over the hits \<open>(scores[0][i], indices[0][i])\<close>.\<close>

fun collect_results ::
  "addr list \<Rightarrow> (real \<times> int) list \<Rightarrow> addr list \<Rightarrow> real list \<Rightarrow> error + addr list \<times> real list" where
  "collect_results cs [] results result_scores = Inr (results, result_scores)"
| "collect_results cs ((s, idx) # hits) results result_scores =
     (if idx < int (length cs) then
        (case py_index cs idx of
           Inl e \<Rightarrow> Inl e
         | Inr c \<Rightarrow> collect_results cs hits (results @ [c]) (result_scores @ [s]))
      else collect_results cs hits results result_scores)"

text \<open>\<open>faiss_search ix q k\<close> stands for \<^verbatim>\<open>self.index.search(query_embedding, k)\<close>: the
  hits of the first query row, each a score and an id.\<close>

definition search_similar_chunks ::
  "(faiss_index \<Rightarrow> vector list \<Rightarrow> nat \<Rightarrow> error + (real \<times> int) list) \<Rightarrow>
   world \<Rightarrow> string \<Rightarrow> nat \<Rightarrow> (error + addr list) \<times> world" where
  "search_similar_chunks faiss_search w query k =
     (case (index (mgr w), chunks (mgr w)) of
        (Some ix, Some cs) \<Rightarrow>
          (case model (mgr w) [query] of
             Inl e \<Rightarrow> (Inl e, w)
           | Inr query_embedding \<Rightarrow>
               (case faiss_search ix query_embedding k of
                  Inl e \<Rightarrow> (Inl e, w)
                | Inr hits \<Rightarrow>
                    (case collect_results cs hits [] [] of
                       Inl e \<Rightarrow> (Inl e, w)
                     | Inr (results, result_scores) \<Rightarrow>
                         filter_relevant_chunks w query results result_scores)))
      | _ \<Rightarrow> (Inl ValueError, w))"

subsection \<open>Concrete states for the witnesses\<close>

text \<open>
  The conversion of numpy 2 for a threshold between 1/2 and 1, where the float32 numbers
  are the multiples of \<open>1 / 2 ^ 24\<close>: the nearest of them. It takes 0.65 to 5452595/8388608,
  which is below 0.65.
  An encoder that gives every text the one-dimensional unit vector, a store whose chunk
  at address \<open>a\<close> has a text of \<open>a + 1\<close> letters and no relevance score, and a new
  manager in a world with three chunks, no files and no directory below the folder,
  under numpy 2.
\<close>

definition float32_threshold :: "real \<Rightarrow> real" where
  "float32_threshold t = real_of_int (round (t * 2 ^ 24)) / 2 ^ 24"

definition ex_model :: "string list \<Rightarrow> error + vector list" where
  "ex_model ts = Inr (map (\<lambda>t. [1]) ts)"

definition ex_heap :: store where
  "ex_heap a =
     \<lparr>chunk_text = replicate (Suc a) CHR ''x'',
      chunk_metadata = \<lparr>source = ''doc.pdf'', chunk_id = int a, mtype = ''pdf'',
                        relevance_score = None\<rparr>\<rparr>"

definition ex_world :: world where
  "ex_world =
     \<lparr>mgr = init_manager ex_model, heap = ex_heap, next_addr = 3,
      index_files = Map.empty, chunk_files = Map.empty,
      directories = {}, threshold_cast = float32_threshold\<rparr>"

text \<open>
  Candidate sequences: the two filter scenarios of the specification.
\<close>

definition ex_low :: "(addr \<times> real) list" where
  "ex_low = [(0, 5 / 10), (1, 4 / 10), (2, 3 / 10)]"

definition ex_mixed :: "(addr \<times> real) list" where
  "ex_mixed = [(0, 9 / 10), (1, 5 / 10), (2, 7 / 10)]"

text \<open>
  A FAISS search that answers every query with the hits of the specification's
  scenario (scores 0.9, 0.5, 0.1), the world after building the three chunks, after a
  search in it, and after persisting that.
\<close>

definition ex_search :: "faiss_index \<Rightarrow> vector list \<Rightarrow> nat \<Rightarrow> error + (real \<times> int) list" where
  "ex_search ix qe k = Inr (take k [(9 / 10, 0), (5 / 10, 2), (1 / 10, 1)])"

definition ex_built :: world where
  "ex_built = snd (create_embeddings ex_world [0, 1, 2])"

definition ex_searched :: world where
  "ex_searched = snd (search_similar_chunks ex_search ex_built ''q'' 3)"

definition ex_saved :: world where
  "ex_saved = snd (save_embeddings ex_searched default_prefix)"

text \<open>
  An encoder that raises, in the built world.
\<close>

definition failing_model :: "string list \<Rightarrow> error + vector list" where
  "failing_model ts = Inl EmbeddingError"

definition ex_failing :: world where
  "ex_failing = ex_built\<lparr>mgr := (mgr ex_built)\<lparr>model := failing_model\<rparr>\<rparr>"

text \<open>
  What FAISS answers when the index holds fewer than \<open>k\<close> vectors: it pads the hits
  with the id \<open>-1\<close> and the lowest float (\<open>-FLT_MAX\<close>). \<open>stale_search\<close> is the answer of
  an index that holds no vector at all; \<open>ex_stale\<close> is a directory whose snapshot pairs
  such an index with a chunk file of one chunk.
\<close>

definition faiss_padding :: "real \<times> int" where
  "faiss_padding = (- 340282346638528859811704183484516925440, - 1)"

definition stale_search :: "faiss_index \<Rightarrow> vector list \<Rightarrow> nat \<Rightarrow> error + (real \<times> int) list" where
  "stale_search ix qe k = Inr (replicate k faiss_padding)"

definition ex_stale :: world where
  "ex_stale =
     ex_world\<lparr>index_files := [''embeddings/university_combined_index.faiss'' \<mapsto> IndexFlatIP 1],
              chunk_files := [''embeddings/university_combined_chunks.pkl'' \<mapsto> [ex_heap 0]]\<rparr>"

text \<open>
  A directory with the chunk files of two sources, \<open>a\<close> of two chunks and \<open>b\<close> of
  three, and none for \<open>c\<close>.
\<close>

definition ex_two :: world where
  "ex_two =
     ex_world\<lparr>chunk_files :=
       [''embeddings/a_chunks.pkl'' \<mapsto> [ex_heap 0, ex_heap 1],
        ''embeddings/b_chunks.pkl'' \<mapsto> [ex_heap 2, ex_heap 0, ex_heap 1]]\<rparr>"


section \<open>Facts about the model\<close>

subsection \<open>The relevance filter\<close>

lemma mark_relevant_snd:
  "snd (mark_relevant thr h xs rel) = rel @ map fst (filter (\<lambda>p. thr \<le> snd p) xs)"
  by (induction thr h xs rel rule: mark_relevant.induct) auto

lemma mark_relevant_none:
  "\<forall>p\<in>set xs. snd p < thr \<Longrightarrow> mark_relevant thr h xs rel = (h, rel)"
  by (induction thr h xs rel rule: mark_relevant.induct) auto

lemma mark_relevant_other:
  "a \<notin> fst ` {p \<in> set xs. thr \<le> snd p} \<Longrightarrow> fst (mark_relevant thr h xs rel) a = h a"
proof (induction thr h xs rel rule: mark_relevant.induct)
  case (1 thr h rel)
  then show ?case by simp
next
  case (2 thr h c s xs rel)
  show ?case
  proof (cases "thr \<le> s")
    case True
    have ne: "a \<noteq> c" using "2.prems" True by force
    have "a \<notin> fst ` {p \<in> set xs. thr \<le> snd p}" using "2.prems" by auto
    then have "fst (mark_relevant thr (set_relevance_score h c s) xs (rel @ [c])) a
               = set_relevance_score h c s a"
      using "2.IH"(1) True by simp
    then show ?thesis using True ne by (simp add: set_relevance_score_def)
  next
    case False
    have "a \<notin> fst ` {p \<in> set xs. thr \<le> snd p}" using "2.prems" by auto
    then show ?thesis using "2.IH"(2) False by simp
  qed
qed

lemma mark_relevant_score:
  "distinct (map fst xs) \<Longrightarrow> (c, s) \<in> set xs \<Longrightarrow> thr \<le> s \<Longrightarrow>
   relevance_score (chunk_metadata (fst (mark_relevant thr h xs rel) c)) = Some s"
proof (induction thr h xs rel rule: mark_relevant.induct)
  case (1 thr h rel)
  then show ?case by simp
next
  case (2 thr h c' s' xs rel)
  show ?case
  proof (cases "(c, s) = (c', s')")
    case True
    have "c \<notin> fst ` {p \<in> set xs. thr \<le> snd p}"
      using "2.prems"(1) True by force
    then have "fst (mark_relevant thr (set_relevance_score h c s) xs (rel @ [c])) c
               = set_relevance_score h c s c"
      by (rule mark_relevant_other)
    then show ?thesis using True "2.prems"(3) by (simp add: set_relevance_score_def)
  next
    case False
    then have "(c, s) \<in> set xs" using "2.prems"(2) by auto
    moreover have "distinct (map fst xs)" using "2.prems"(1) by simp
    ultimately show ?thesis using "2.IH" "2.prems"(3) by simp
  qed
qed

lemma mark_relevant_some:
  "a \<in> fst ` {p \<in> set xs. thr \<le> snd p} \<Longrightarrow>
   \<exists>s. (a, s) \<in> set xs \<and> thr \<le> s \<and>
       relevance_score (chunk_metadata (fst (mark_relevant thr h xs rel) a)) = Some s"
proof (induction thr h xs rel rule: mark_relevant.induct)
  case (1 thr h rel)
  then show ?case by simp
next
  case (2 thr h c s xs rel)
  show ?case
  proof (cases "a \<in> fst ` {p \<in> set xs. thr \<le> snd p}")
    case later: True
    show ?thesis
    proof (cases "thr \<le> s")
      case True
      from "2.IH"(1)[OF True later] True show ?thesis by auto
    next
      case False
      from "2.IH"(2)[OF False later] False show ?thesis by auto
    qed
  next
    case last: False
    with "2.prems" have ac: "a = c" "thr \<le> s" by auto
    have "fst (mark_relevant thr (set_relevance_score h c s) xs (rel @ [c])) a
            = set_relevance_score h c s a"
      using last by (rule mark_relevant_other)
    with ac show ?thesis by (auto simp: set_relevance_score_def)
  qed
qed

lemma argmax_from_spec:
  "i = length pre \<Longrightarrow> b < i \<Longrightarrow> v = pre ! b \<Longrightarrow> \<forall>j<i. pre ! j \<le> v \<Longrightarrow> \<forall>j<b. pre ! j < v \<Longrightarrow>
   r = argmax_from xs i b v \<Longrightarrow>
   r < length (pre @ xs) \<and> (\<forall>j<length (pre @ xs). (pre @ xs) ! j \<le> (pre @ xs) ! r)
     \<and> (\<forall>j<r. (pre @ xs) ! j < (pre @ xs) ! r)"
proof (induction xs arbitrary: pre i b v)
  case Nil
  then show ?case by simp
next
  case (Cons x xs)
  show ?case
  proof (cases "v < x")
    case True
    have "r = argmax_from xs (Suc i) i x" using Cons.prems(6) True by simp
    moreover have "\<forall>j<Suc i. (pre @ [x]) ! j \<le> x"
      using Cons.prems True by (auto simp: nth_append less_Suc_eq)
    moreover have "\<forall>j<i. (pre @ [x]) ! j < x"
      using Cons.prems True by (auto simp: nth_append)
    ultimately have "r < length ((pre @ [x]) @ xs) \<and>
        (\<forall>j<length ((pre @ [x]) @ xs). ((pre @ [x]) @ xs) ! j \<le> ((pre @ [x]) @ xs) ! r) \<and>
        (\<forall>j<r. ((pre @ [x]) @ xs) ! j < ((pre @ [x]) @ xs) ! r)"
      using Cons.IH[of "Suc i" "pre @ [x]" i x] Cons.prems(1) by (simp add: nth_append)
    then show ?thesis by simp
  next
    case False
    have "r = argmax_from xs (Suc i) b v" using Cons.prems(6) False by simp
    moreover have "\<forall>j<Suc i. (pre @ [x]) ! j \<le> v"
      using Cons.prems False by (auto simp: nth_append less_Suc_eq)
    moreover have "\<forall>j<b. (pre @ [x]) ! j < v"
      using Cons.prems by (auto simp: nth_append)
    moreover have "v = (pre @ [x]) ! b" using Cons.prems by (simp add: nth_append)
    ultimately have "r < length ((pre @ [x]) @ xs) \<and>
        (\<forall>j<length ((pre @ [x]) @ xs). ((pre @ [x]) @ xs) ! j \<le> ((pre @ [x]) @ xs) ! r) \<and>
        (\<forall>j<r. ((pre @ [x]) @ xs) ! j < ((pre @ [x]) @ xs) ! r)"
      using Cons.IH[of "Suc i" "pre @ [x]" b v] Cons.prems(1,2) by simp
    then show ?thesis by simp
  qed
qed

lemma np_argmax_spec:
  assumes "xs \<noteq> []"
  shows "\<exists>r. np_argmax xs = Inr r \<and> r < length xs \<and> (\<forall>j<length xs. xs ! j \<le> xs ! r)
           \<and> (\<forall>j<r. xs ! j < xs ! r)"
proof -
  obtain x ys where xs: "xs = x # ys" using assms by (cases xs) auto
  have "argmax_from ys 1 0 x < length ([x] @ ys) \<and>
        (\<forall>j<length ([x] @ ys). ([x] @ ys) ! j \<le> ([x] @ ys) ! argmax_from ys 1 0 x) \<and>
        (\<forall>j<argmax_from ys 1 0 x. ([x] @ ys) ! j < ([x] @ ys) ! argmax_from ys 1 0 x)"
    by (rule argmax_from_spec[of 1 "[x]" 0 x]) auto
  then show ?thesis by (simp add: xs np_argmax_def)
qed

lemma filter_relevant_chunks_below:
  fixes cands :: "(addr \<times> real) list"
  assumes ne: "cands \<noteq> []"
    and below: "\<forall>p\<in>set cands. snd p < np_threshold w"
  shows "\<exists>i<length cands.
           (\<forall>j<length cands. snd (cands ! j) \<le> snd (cands ! i)) \<and>
           (\<forall>j<i. snd (cands ! j) < snd (cands ! i)) \<and>
           filter_relevant_chunks w q (map fst cands) (map snd cands) =
             (Inr [fst (cands ! i)],
              w\<lparr>heap := set_relevance_score (heap w) (fst (cands ! i)) (snd (cands ! i))\<rparr>)"
proof -
  have z: "zip (map fst cands) (map snd cands) = cands"
    by (simp add: zip_map_fst_snd)
  have m: "mark_relevant (np_threshold w) (heap w) cands [] = (heap w, [])"
    using below by (rule mark_relevant_none)
  from ne have "map snd cands \<noteq> []" by simp
  from np_argmax_spec[OF this] obtain r where
    r: "np_argmax (map snd cands) = Inr r" "r < length cands"
       "\<forall>j<length cands. map snd cands ! j \<le> map snd cands ! r"
       "\<forall>j<r. map snd cands ! j < map snd cands ! r"
    by auto
  have "filter_relevant_chunks w q (map fst cands) (map snd cands) =
          (Inr [fst (cands ! r)],
           w\<lparr>heap := set_relevance_score (heap w) (fst (cands ! r)) (snd (cands ! r))\<rparr>)"
    using ne r(1,2) by (simp add: filter_relevant_chunks_def z m)
  moreover have "\<forall>j<length cands. snd (cands ! j) \<le> snd (cands ! r)"
    using r(2,3) by simp
  moreover have "\<forall>j<r. snd (cands ! j) < snd (cands ! r)"
    using r(2,4) by simp
  ultimately show ?thesis using r(2) by blast
qed

lemma filter_relevant_chunks_total:
  fixes cands :: "(addr \<times> real) list"
  shows "\<exists>res h'. filter_relevant_chunks w q (map fst cands) (map snd cands) =
           (Inr res, w\<lparr>heap := h'\<rparr>) \<and> (res = [] \<longleftrightarrow> cands = []) \<and> set res \<subseteq> fst ` set cands"
proof (cases "cands = []")
  case True
  show ?thesis using True
    by (intro exI[of _ "[]"] exI[of _ "heap w"]) (simp add: filter_relevant_chunks_def)
next
  case False
  have z: "zip (map fst cands) (map snd cands) = cands"
    by (simp add: zip_map_fst_snd)
  obtain h1 rel where m: "mark_relevant (np_threshold w) (heap w) cands [] = (h1, rel)"
    by (cases "mark_relevant (np_threshold w) (heap w) cands []") auto
  have rel: "rel = map fst (filter (\<lambda>p. np_threshold w \<le> snd p) cands)"
    using mark_relevant_snd[of "np_threshold w" "heap w" cands "[]"] m by simp
  show ?thesis
  proof (cases "rel = []")
    case True
    from False have "map snd cands \<noteq> []" by simp
    from np_argmax_spec[OF this] obtain r where
      r: "np_argmax (map snd cands) = Inr r" "r < length cands" by auto
    have "filter_relevant_chunks w q (map fst cands) (map snd cands) =
          (Inr [fst (cands ! r)],
           w\<lparr>heap := set_relevance_score h1 (fst (cands ! r)) (snd (cands ! r))\<rparr>)"
      using False True r by (simp add: filter_relevant_chunks_def z m)
    moreover have "fst (cands ! r) \<in> fst ` set cands" using r(2) by simp
    ultimately show ?thesis using False by auto
  next
    case nonempty: False
    have "filter_relevant_chunks w q (map fst cands) (map snd cands) = (Inr rel, w\<lparr>heap := h1\<rparr>)"
      using False nonempty by (simp add: filter_relevant_chunks_def z m)
    moreover have "set rel \<subseteq> fst ` set cands" using rel by auto
    ultimately show ?thesis using False nonempty by blast
  qed
qed

lemma filter_relevant_chunks_above:
  fixes cands :: "(addr \<times> real) list"
  assumes "\<exists>p\<in>set cands. np_threshold w \<le> snd p"
  shows "filter_relevant_chunks w q (map fst cands) (map snd cands) =
           (Inr (map fst (filter (\<lambda>p. np_threshold w \<le> snd p) cands)),
            w\<lparr>heap := fst (mark_relevant (np_threshold w) (heap w) cands [])\<rparr>)"
proof -
  have z: "zip (map fst cands) (map snd cands) = cands"
    by (simp add: zip_map_fst_snd)
  obtain h1 rel where m: "mark_relevant (np_threshold w) (heap w) cands [] = (h1, rel)"
    by (cases "mark_relevant (np_threshold w) (heap w) cands []") auto
  have rel: "rel = map fst (filter (\<lambda>p. np_threshold w \<le> snd p) cands)"
    using mark_relevant_snd[of "np_threshold w" "heap w" cands "[]"] m by simp
  have "filter (\<lambda>p. np_threshold w \<le> snd p) cands \<noteq> []"
    using assms by (simp add: filter_empty_conv)
  then have "rel \<noteq> []" using rel by simp
  moreover have "cands \<noteq> []" using assms by auto
  ultimately show ?thesis using rel by (simp add: filter_relevant_chunks_def z m)
qed

lemma filter_relevant_chunks_lists:
  assumes "length cs = length scores"
  shows "\<exists>res h'. filter_relevant_chunks w q cs scores = (Inr res, w\<lparr>heap := h'\<rparr>) \<and>
           (res = [] \<longleftrightarrow> cs = []) \<and> set res \<subseteq> set cs"
proof -
  have a: "map fst (zip cs scores) = cs" and b: "map snd (zip cs scores) = scores"
    using assms by simp_all
  from filter_relevant_chunks_total[of w q "zip cs scores"] obtain res h' where
    r: "filter_relevant_chunks w q cs scores = (Inr res, w\<lparr>heap := h'\<rparr>)"
       "res = [] \<longleftrightarrow> zip cs scores = []" "set res \<subseteq> fst ` set (zip cs scores)"
    unfolding a b by blast
  have "fst ` set (zip cs scores) \<subseteq> set cs" by (auto dest: set_zip_leftD)
  moreover have "zip cs scores = [] \<longleftrightarrow> cs = []" using assms by (cases cs; cases scores) auto
  ultimately show ?thesis using r by blast
qed

lemma filter_relevant_chunks_distinct:
  fixes cands :: "(addr \<times> real) list"
  assumes "\<exists>p\<in>set cands. np_threshold w \<le> snd p"
  shows "relevance_threshold (init_manager m) = 65 / 100 \<and>
    (\<exists>w'. filter_relevant_chunks w q (map fst cands) (map snd cands) =
        (Inr (map fst (filter (\<lambda>p. np_threshold w \<le> snd p) cands)), w') \<and>
      (distinct (map fst cands) \<longrightarrow>
         (\<forall>p\<in>set cands.
            if np_threshold w \<le> snd p
            then relevance_score (chunk_metadata (heap w' (fst p))) = Some (snd p)
            else fst p \<notin> set (map fst (filter (\<lambda>p. np_threshold w \<le> snd p) cands)) \<and>
                 heap w' (fst p) = heap w (fst p))))"
proof -
  let ?thr = "np_threshold w"
  let ?h = "fst (mark_relevant ?thr (heap w) cands [])"
  have run: "filter_relevant_chunks w q (map fst cands) (map snd cands) =
        (Inr (map fst (filter (\<lambda>p. ?thr \<le> snd p) cands)), w\<lparr>heap := ?h\<rparr>)"
    using assms by (rule filter_relevant_chunks_above)
  have "\<forall>p\<in>set cands.
            if ?thr \<le> snd p
            then relevance_score (chunk_metadata (?h (fst p))) = Some (snd p)
            else fst p \<notin> set (map fst (filter (\<lambda>p. ?thr \<le> snd p) cands)) \<and>
                 ?h (fst p) = heap w (fst p)"
    if d: "distinct (map fst cands)"
  proof
    fix p assume p: "p \<in> set cands"
    show "if ?thr \<le> snd p
            then relevance_score (chunk_metadata (?h (fst p))) = Some (snd p)
            else fst p \<notin> set (map fst (filter (\<lambda>p. ?thr \<le> snd p) cands)) \<and>
                 ?h (fst p) = heap w (fst p)"
    proof (cases "?thr \<le> snd p")
      case True
      have "(fst p, snd p) \<in> set cands" using p by simp
      from mark_relevant_score[OF d this True] True show ?thesis by simp
    next
      case False
      have notin: "fst p \<notin> fst ` {x \<in> set cands. ?thr \<le> snd x}"
      proof
        assume "fst p \<in> fst ` {x \<in> set cands. ?thr \<le> snd x}"
        then obtain x where x: "x \<in> set cands" "?thr \<le> snd x" "fst x = fst p" by auto
        from d x(1) p x(3) have "x = p" by (meson distinct_map inj_onD)
        with x(2) False show False by simp
      qed
      then have "?h (fst p) = heap w (fst p)" by (rule mark_relevant_other)
      moreover have "fst p \<notin> set (map fst (filter (\<lambda>p. ?thr \<le> snd p) cands))"
        using notin by auto
      ultimately show ?thesis using False by simp
    qed
  qed
  note core = this
  have hw: "heap (w\<lparr>heap := ?h\<rparr>) = ?h" by simp
  have body: "distinct (map fst cands) \<longrightarrow>
         (\<forall>p\<in>set cands.
            if ?thr \<le> snd p
            then relevance_score (chunk_metadata (heap (w\<lparr>heap := ?h\<rparr>) (fst p))) = Some (snd p)
            else fst p \<notin> set (map fst (filter (\<lambda>p. ?thr \<le> snd p) cands)) \<and>
                 heap (w\<lparr>heap := ?h\<rparr>) (fst p) = heap w (fst p))"
  proof
    assume d: "distinct (map fst cands)"
    show "\<forall>p\<in>set cands.
            if ?thr \<le> snd p
            then relevance_score (chunk_metadata (heap (w\<lparr>heap := ?h\<rparr>) (fst p))) = Some (snd p)
            else fst p \<notin> set (map fst (filter (\<lambda>p. ?thr \<le> snd p) cands)) \<and>
                 heap (w\<lparr>heap := ?h\<rparr>) (fst p) = heap w (fst p)"
      using core[OF d] by (simp only: hw)
  qed
  have "relevance_threshold (init_manager m) = 65 / 100" by (simp add: init_manager_def)
  with run body show ?thesis by blast
qed

subsection \<open>What the filter leaves alone\<close>

lemma set_relevance_score_frame:
  "chunk_text (set_relevance_score h c s a) = chunk_text (h a) \<and>
   source (chunk_metadata (set_relevance_score h c s a)) = source (chunk_metadata (h a)) \<and>
   chunk_id (chunk_metadata (set_relevance_score h c s a)) = chunk_id (chunk_metadata (h a)) \<and>
   mtype (chunk_metadata (set_relevance_score h c s a)) = mtype (chunk_metadata (h a))"
  by (simp add: set_relevance_score_def)

lemma mark_relevant_frame:
  "chunk_text (fst (mark_relevant thr h xs rel) a) = chunk_text (h a) \<and>
   source (chunk_metadata (fst (mark_relevant thr h xs rel) a)) = source (chunk_metadata (h a)) \<and>
   chunk_id (chunk_metadata (fst (mark_relevant thr h xs rel) a)) = chunk_id (chunk_metadata (h a)) \<and>
   mtype (chunk_metadata (fst (mark_relevant thr h xs rel) a)) = mtype (chunk_metadata (h a))"
proof (induction thr h xs rel rule: mark_relevant.induct)
  case (1 thr h rel)
  then show ?case by simp
next
  case (2 thr h c s xs rel)
  show ?case
  proof (cases "thr \<le> s")
    case True
    with "2.IH"(1) set_relevance_score_frame[of h c s a] show ?thesis by simp
  next
    case False
    with "2.IH"(2) show ?thesis by simp
  qed
qed

lemma set_relevance_score_keeps:
  "relevance_score (chunk_metadata (h a)) \<noteq> None \<or> a = c \<Longrightarrow>
   relevance_score (chunk_metadata (set_relevance_score h c s a)) \<noteq> None"
  by (auto simp: set_relevance_score_def)

lemma mark_relevant_keeps:
  "relevance_score (chunk_metadata (h a)) \<noteq> None \<Longrightarrow>
   relevance_score (chunk_metadata (fst (mark_relevant thr h xs rel) a)) \<noteq> None"
proof (induction thr h xs rel rule: mark_relevant.induct)
  case (1 thr h rel)
  then show ?case by simp
next
  case (2 thr h c s xs rel)
  show ?case
  proof (cases "thr \<le> s")
    case True
    have "relevance_score (chunk_metadata (set_relevance_score h c s a)) \<noteq> None"
      using "2.prems" by (intro set_relevance_score_keeps) simp
    from "2.IH"(1)[OF True this] True show ?thesis by simp
  next
    case False
    with "2.IH"(2) "2.prems" show ?thesis by simp
  qed
qed

lemma mark_relevant_marked:
  "a \<in> set (snd (mark_relevant thr h xs rel)) \<Longrightarrow>
   a \<in> set rel \<or> relevance_score (chunk_metadata (fst (mark_relevant thr h xs rel) a)) \<noteq> None"
proof (induction thr h xs rel rule: mark_relevant.induct)
  case (1 thr h rel)
  then show ?case by simp
next
  case (2 thr h c s xs rel)
  show ?case
  proof (cases "thr \<le> s")
    case True
    from "2.prems" True
    have "a \<in> set (snd (mark_relevant thr (set_relevance_score h c s) xs (rel @ [c])))" by simp
    from "2.IH"(1)[OF True this]
    have "a \<in> set rel \<or> a = c \<or>
          relevance_score (chunk_metadata
            (fst (mark_relevant thr (set_relevance_score h c s) xs (rel @ [c])) a)) \<noteq> None"
      by auto
    moreover have "relevance_score (chunk_metadata
            (fst (mark_relevant thr (set_relevance_score h c s) xs (rel @ [c])) a)) \<noteq> None"
      if "a = c"
      by (rule mark_relevant_keeps) (simp add: that set_relevance_score_def)
    ultimately show ?thesis using True by auto
  next
    case False
    with "2.IH"(2) "2.prems" show ?thesis by simp
  qed
qed

lemma filter_relevant_chunks_frame:
  assumes "filter_relevant_chunks w q cs scores = (r, w')"
  shows "mgr w' = mgr w \<and> next_addr w' = next_addr w \<and> index_files w' = index_files w \<and>
         chunk_files w' = chunk_files w \<and>
         (\<forall>a. chunk_text (heap w' a) = chunk_text (heap w a) \<and>
              source (chunk_metadata (heap w' a)) = source (chunk_metadata (heap w a)) \<and>
              chunk_id (chunk_metadata (heap w' a)) = chunk_id (chunk_metadata (heap w a)) \<and>
              mtype (chunk_metadata (heap w' a)) = mtype (chunk_metadata (heap w a))) \<and>
         (\<forall>res. r = Inr res \<longrightarrow>
            (\<forall>a\<in>set res. relevance_score (chunk_metadata (heap w' a)) \<noteq> None))"
proof (cases "cs = []")
  case True
  with assms show ?thesis by (auto simp: filter_relevant_chunks_def)
next
  case False
  let ?thr = "np_threshold w"
  let ?m = "mark_relevant ?thr (heap w) (zip cs scores) []"
  note fr = mark_relevant_frame[of ?thr "heap w" "zip cs scores" "[]"]
  show ?thesis
  proof (cases "snd ?m = []")
    case rel: False
    from assms False rel have r: "r = Inr (snd ?m)" "w' = w\<lparr>heap := fst ?m\<rparr>"
      by (auto simp: filter_relevant_chunks_def split: prod.splits)
    have "\<forall>a\<in>set (snd ?m). relevance_score (chunk_metadata (fst ?m a)) \<noteq> None"
      using mark_relevant_marked[of _ ?thr "heap w" "zip cs scores" "[]"] by auto
    with r fr show ?thesis by simp
  next
    case rel: True
    show ?thesis
    proof (cases "np_argmax scores")
      case (Inl e)
      with assms False rel have "r = Inl e" "w' = w\<lparr>heap := fst ?m\<rparr>"
        by (auto simp: filter_relevant_chunks_def split: prod.splits)
      with fr show ?thesis by simp
    next
      case (Inr top)
      show ?thesis
      proof (cases "top < length cs")
        case True
        with assms False rel Inr have r: "r = Inr [cs ! top]"
          "w' = w\<lparr>heap := set_relevance_score (fst ?m) (cs ! top) (scores ! top)\<rparr>"
          by (auto simp: filter_relevant_chunks_def split: prod.splits)
        have "relevance_score (chunk_metadata (heap w' (cs ! top))) \<noteq> None"
          by (simp add: r set_relevance_score_def)
        moreover have "\<forall>a. chunk_text (heap w' a) = chunk_text (heap w a) \<and>
              source (chunk_metadata (heap w' a)) = source (chunk_metadata (heap w a)) \<and>
              chunk_id (chunk_metadata (heap w' a)) = chunk_id (chunk_metadata (heap w a)) \<and>
              mtype (chunk_metadata (heap w' a)) = mtype (chunk_metadata (heap w a))"
          using fr set_relevance_score_frame[of "fst ?m" "cs ! top" "scores ! top"]
          by (simp add: r)
        ultimately show ?thesis using r by simp
      next
        case nb: False
        with assms False rel Inr have "r = Inl IndexError" "w' = w\<lparr>heap := fst ?m\<rparr>"
          by (auto simp: filter_relevant_chunks_def split: prod.splits)
        with fr show ?thesis by simp
      qed
    qed
  qed
qed


subsection \<open>Build and search\<close>

lemma create_embeddings_fail:
  "model (mgr w) (map (\<lambda>c. chunk_text (heap w c)) cs) = Inl e \<Longrightarrow>
   create_embeddings w cs = (Inl e, w\<lparr>mgr := (mgr w)\<lparr>chunks := Some cs\<rparr>\<rparr>)"
  by (simp add: create_embeddings_def Let_def)

lemma create_embeddings_empty:
  "model (mgr w) (map (\<lambda>c. chunk_text (heap w c)) cs) = Inr [] \<Longrightarrow>
   create_embeddings w cs = (Inl IndexError, w\<lparr>mgr := (mgr w)\<lparr>chunks := Some cs\<rparr>\<rparr>)"
  by (simp add: create_embeddings_def Let_def)

lemma create_embeddings_ok:
  "model (mgr w) (map (\<lambda>c. chunk_text (heap w c)) cs) = Inr (v # vs) \<Longrightarrow>
   create_embeddings w cs =
     (Inr (v # vs),
      w\<lparr>mgr := (mgr w)\<lparr>chunks := Some cs,
                        index := Some \<lparr>dimension = length v, rows = v # vs\<rparr>\<rparr>\<rparr>)"
  by (simp add: create_embeddings_def Let_def IndexFlatIP_def index_add_def)

lemma create_embeddings_Inr:
  assumes "create_embeddings w cs = (Inr embs, w1)"
  shows "model (mgr w) (map (\<lambda>c. chunk_text (heap w c)) cs) = Inr embs \<and> embs \<noteq> [] \<and>
         w1 = w\<lparr>mgr := (mgr w)\<lparr>chunks := Some cs,
                 index := Some \<lparr>dimension = length (hd embs), rows = embs\<rparr>\<rparr>\<rparr>"
proof (cases "model (mgr w) (map (\<lambda>c. chunk_text (heap w c)) cs)")
  case (Inl e)
  from create_embeddings_fail[OF this] assms show ?thesis by simp
next
  case (Inr vs)
  show ?thesis
  proof (cases vs)
    case Nil
    with Inr create_embeddings_empty[of w cs] assms show ?thesis by simp
  next
    case (Cons v vs')
    with Inr create_embeddings_ok[of w cs v vs'] assms show ?thesis by auto
  qed
qed

lemma py_index_in: "py_index cs idx = Inr c \<Longrightarrow> c \<in> set cs"
  by (auto simp: py_index_def split: if_splits)

lemma collect_results_sub:
  "collect_results cs hits results result_scores = Inr (rs, ss) \<Longrightarrow>
   set rs \<subseteq> set results \<union> set cs \<and>
   (length results = length result_scores \<longrightarrow> length rs = length ss)"
proof (induction cs hits results result_scores rule: collect_results.induct)
  case (1 cs results result_scores)
  then show ?case by simp
next
  case (2 cs s idx hits results result_scores)
  show ?case
  proof (cases "idx < int (length cs)")
    case True
    with "2.prems" obtain c where c: "py_index cs idx = Inr c"
      "collect_results cs hits (results @ [c]) (result_scores @ [s]) = Inr (rs, ss)"
      by (auto split: sum.splits)
    from "2.IH"(1)[OF True c(1) c(2)] py_index_in[OF c(1)] show ?thesis by auto
  next
    case False
    with "2.prems" have "collect_results cs hits results result_scores = Inr (rs, ss)" by simp
    from "2.IH"(2)[OF False this] show ?thesis .
  qed
qed

lemma search_similar_chunks_sub:
  assumes "search_similar_chunks fs w q k = (Inr res, w')"
  shows "\<exists>cs. chunks (mgr w) = Some cs \<and> set res \<subseteq> set cs"
proof -
  from assms obtain ix cs where ic: "index (mgr w) = Some ix" "chunks (mgr w) = Some cs"
    by (auto simp: search_similar_chunks_def split: option.splits)
  from assms ic obtain qe where qe: "model (mgr w) [q] = Inr qe"
    by (auto simp: search_similar_chunks_def split: sum.splits)
  from assms ic qe obtain hits where hits: "fs ix qe k = Inr hits"
    by (auto simp: search_similar_chunks_def split: sum.splits)
  from assms ic qe hits obtain rs ss where col: "collect_results cs hits [] [] = Inr (rs, ss)"
    by (auto simp: search_similar_chunks_def split: sum.splits)
  from assms ic qe hits col have f: "filter_relevant_chunks w q rs ss = (Inr res, w')"
    by (simp add: search_similar_chunks_def)
  from collect_results_sub[OF col] have sub: "set rs \<subseteq> set cs" and len: "length rs = length ss"
    by auto
  from filter_relevant_chunks_lists[OF len, of w q] f have "set res \<subseteq> set rs" by auto
  with sub ic show ?thesis by auto
qed

lemma search_similar_chunks_cases:
  "search_similar_chunks fs w q k = (r, w') \<Longrightarrow>
   (\<exists>e. r = Inl e \<and> w' = w) \<or> (\<exists>rs ss. filter_relevant_chunks w q rs ss = (r, w'))"
  by (auto simp: search_similar_chunks_def split: option.splits sum.splits prod.splits)

lemma filter_relevant_chunks_dirs:
  "filter_relevant_chunks w q cs scores = (r, w') \<Longrightarrow>
   directories w' = directories w \<and> mgr w' = mgr w"
  by (auto simp: filter_relevant_chunks_def split: if_splits prod.splits sum.splits)

lemma search_similar_chunks_dirs:
  assumes "search_similar_chunks fs w q k = (r, w')"
  shows "directories w' = directories w \<and> mgr w' = mgr w"
  using search_similar_chunks_cases[OF assms] filter_relevant_chunks_dirs by blast

subsection \<open>Pickles, snapshots and sources\<close>

lemma store_objs_apply:
  "store_objs h n xs a = (if n \<le> a \<and> a < n + length xs then xs ! (a - n) else h a)"
proof (induction h n xs rule: store_objs.induct)
  case (1 h n)
  then show ?case by auto
next
  case (2 h n x xs)
  have IH: "store_objs (h(n := x)) (Suc n) xs a =
      (if Suc n \<le> a \<and> a < Suc n + length xs then xs ! (a - Suc n) else (h(n := x)) a)"
    by (rule "2.IH")
  show ?case
  proof (cases "a = n")
    case True
    with IH show ?thesis by simp
  next
    case False
    with IH show ?thesis by (auto simp: nth_Cons')
  qed
qed

lemma map_store_objs: "map (store_objs h n xs) [n ..< n + length xs] = xs"
  by (rule nth_equalityI) (simp_all add: store_objs_apply)

lemma pickle_load_facts:
  assumes "pickle_load w objs = (cs, w')"
  shows "map (heap w') cs = objs" "length cs = length objs" "mgr w' = mgr w"
    "index_files w' = index_files w" "chunk_files w' = chunk_files w"
    "next_addr w' = next_addr w + length objs"
    "\<forall>a<next_addr w. heap w' a = heap w a" "\<forall>a\<in>set cs. a < next_addr w'"
  using assms by (auto simp: pickle_load_def map_store_objs store_objs_apply)

lemma writable_cong:
  "embeddings_folder (mgr w') = embeddings_folder (mgr w) \<Longrightarrow> directories w' = directories w \<Longrightarrow>
   writable w' filename = writable w filename"
  by (simp add: writable_def valid_name_def basename_def)

lemma save_embeddings_ok:
  assumes "index (mgr w) = Some ix" "chunks (mgr w) = Some cs"
    and "writable w (p @ ''_index.faiss'')" "writable w (p @ ''_chunks.pkl'')"
  shows "save_embeddings w p =
     (Inr (index_path (mgr w) p, chunks_path (mgr w) p),
      w\<lparr>index_files := (index_files w)(index_path (mgr w) p \<mapsto> ix),
        chunk_files := (chunk_files w)(chunks_path (mgr w) p \<mapsto> map (heap w) cs)\<rparr>)"
proof -
  have "writable (w\<lparr>index_files := (index_files w)(index_path (mgr w) p \<mapsto> ix)\<rparr>)
          (p @ ''_chunks.pkl'')"
    using assms(4) by (simp add: writable_def valid_name_def basename_def)
  with assms show ?thesis by (simp add: save_embeddings_def Let_def pickle_dump_def)
qed

lemma load_embeddings_ok:
  assumes "index_files w (index_path (mgr w) p) = Some ix"
    and "chunk_files w (chunks_path (mgr w) p) = Some objs"
  shows "\<exists>w' cs. load_embeddings w p = (True, w') \<and> index (mgr w') = Some ix \<and>
           chunks (mgr w') = Some cs \<and> map (heap w') cs = objs"
  using assms by (simp add: load_embeddings_def Let_def pickle_load_def map_store_objs)

lemma load_sources_frame:
  "load_sources w srcs acc = (r, w') \<Longrightarrow>
   mgr w' = mgr w \<and> index_files w' = index_files w \<and> chunk_files w' = chunk_files w \<and>
   next_addr w \<le> next_addr w' \<and> (\<forall>a<next_addr w. heap w' a = heap w a)"
proof (induction w srcs acc arbitrary: r w' rule: load_sources.induct)
  case (1 w all_chunks)
  then show ?case by simp
next
  case (2 w src srcs all_chunks)
  show ?case
  proof (cases "chunk_files w (chunks_path (mgr w) src)")
    case None
    with "2.prems" show ?thesis by simp
  next
    case (Some pk)
    obtain cs w1 where pl: "pickle_load w pk = (cs, w1)" by (cases "pickle_load w pk") auto
    with Some "2.prems" have run: "load_sources w1 srcs (all_chunks @ cs) = (r, w')" by simp
    from "2.IH"[OF Some pl[symmetric] run] pickle_load_facts[OF pl]
    show ?thesis by auto
  qed
qed

lemma load_sources_missing:
  "(fst (load_sources w srcs acc) = None) \<longleftrightarrow>
   (\<exists>s\<in>set srcs. chunk_files w (chunks_path (mgr w) s) = None)"
proof (induction w srcs acc rule: load_sources.induct)
  case (1 w all_chunks)
  then show ?case by simp
next
  case (2 w src srcs all_chunks)
  show ?case
  proof (cases "chunk_files w (chunks_path (mgr w) src)")
    case None
    then show ?thesis by simp
  next
    case (Some pk)
    obtain cs w1 where pl: "pickle_load w pk = (cs, w1)" by (cases "pickle_load w pk") auto
    from "2.IH"[OF Some pl[symmetric]] pickle_load_facts(3,5)[OF pl] Some pl
    show ?thesis by simp
  qed
qed

lemma load_sources_present:
  "map (\<lambda>s. chunk_files w (chunks_path (mgr w) s)) srcs = map Some pks \<Longrightarrow>
   \<forall>a\<in>set acc. a < next_addr w \<Longrightarrow>
   \<exists>all w'. load_sources w srcs acc = (Some all, w') \<and>
     map (heap w') all = map (heap w) acc @ concat pks \<and> (\<forall>a\<in>set all. a < next_addr w')"
proof (induction w srcs acc arbitrary: pks rule: load_sources.induct)
  case (1 w all_chunks)
  then show ?case by simp
next
  case (2 w src srcs all_chunks)
  from "2.prems"(1) obtain pk pks' where pks: "pks = pk # pks'"
    "chunk_files w (chunks_path (mgr w) src) = Some pk"
    "map (\<lambda>s. chunk_files w (chunks_path (mgr w) s)) srcs = map Some pks'"
    by (cases pks) auto
  obtain cs w1 where pl: "pickle_load w pk = (cs, w1)" by (cases "pickle_load w pk") auto
  note f = pickle_load_facts[OF pl]
  have p1: "map (\<lambda>s. chunk_files w1 (chunks_path (mgr w1) s)) srcs = map Some pks'"
    using pks(3) f(3,5) by simp
  have p2: "\<forall>a\<in>set (all_chunks @ cs). a < next_addr w1"
    using "2.prems"(2) f(6,8) by auto
  from "2.IH"[OF pks(2) pl[symmetric] p1 p2] obtain all w' where
    r: "load_sources w1 srcs (all_chunks @ cs) = (Some all, w')"
       "map (heap w') all = map (heap w1) (all_chunks @ cs) @ concat pks'"
       "\<forall>a\<in>set all. a < next_addr w'"
    by blast
  have "map (heap w1) all_chunks = map (heap w) all_chunks"
    using "2.prems"(2) f(7) by simp
  with r(2) f(1) have "map (heap w') all = map (heap w) all_chunks @ concat pks"
    by (simp add: pks(1))
  moreover have "load_sources w (src # srcs) all_chunks = (Some all, w')"
    using pks(2) pl r(1) by simp
  ultimately show ?case using r(3) by blast
qed

lemma combine_embeddings_missing:
  assumes "\<exists>s\<in>set sources. chunk_files w (chunks_path (mgr w) s) = None"
  shows "fst (combine_embeddings w sources) = Inr False"
proof -
  from assms load_sources_missing[of w sources "[]"]
  have "fst (load_sources w sources []) = None" by simp
  then show ?thesis
    by (cases "load_sources w sources []") (simp add: combine_embeddings_def)
qed

lemma combine_embeddings_False:
  assumes "combine_embeddings w sources = (Inr False, w')"
  shows "load_sources w sources [] = (None, w')"
proof (cases "load_sources w sources []")
  case (Pair r w1)
  show ?thesis
  proof (cases r)
    case None
    with Pair assms show ?thesis by (simp add: combine_embeddings_def)
  next
    case (Some all_chunks)
    with Pair assms have False
      by (auto simp: combine_embeddings_def split: prod.splits sum.splits)
    then show ?thesis ..
  qed
qed

subsection \<open>The concrete states, evaluated\<close>

lemma ex_built_eq:
  "ex_built = ex_world\<lparr>mgr := (mgr ex_world)\<lparr>chunks := Some [0, 1, 2],
       index := Some \<lparr>dimension = 1, rows = [[1], [1], [1]]\<rparr>\<rparr>\<rparr>"
  by (simp add: ex_built_def create_embeddings_def ex_world_def init_manager_def ex_model_def
      Let_def IndexFlatIP_def index_add_def)

lemma ex_search_run:
  "search_similar_chunks ex_search ex_built ''q'' 3 =
     (Inr [0], ex_built\<lparr>heap := set_relevance_score ex_heap 0 (9 / 10)\<rparr>)"
  by (simp add: search_similar_chunks_def ex_built_eq ex_world_def init_manager_def ex_model_def
      ex_search_def py_index_def filter_relevant_chunks_def np_threshold_def float32_threshold_def round_def)

lemma ex_two_paths:
  "chunks_path (mgr ex_two) ''a'' = ''embeddings/a_chunks.pkl''"
  "chunks_path (mgr ex_two) ''b'' = ''embeddings/b_chunks.pkl''"
  "chunks_path (mgr ex_two) ''c'' = ''embeddings/c_chunks.pkl''"
  by (simp_all add: chunks_path_def os_path_join_def ex_two_def ex_world_def init_manager_def)

lemma ex_two_files:
  "chunk_files ex_two ''embeddings/a_chunks.pkl'' = Some [ex_heap 0, ex_heap 1]"
  "chunk_files ex_two ''embeddings/b_chunks.pkl'' = Some [ex_heap 2, ex_heap 0, ex_heap 1]"
  "chunk_files ex_two ''embeddings/c_chunks.pkl'' = None"
  by (simp_all add: ex_two_def)


section \<open>The claims\<close>

text \<open>
  Against C1 as stated: two candidates that both score 5452595/8388608, the float32
  nearest to 0.65 and below it. No score reaches the threshold 0.65, yet under numpy 2,
  which rounds the threshold to float32 for the comparison, both are kept and the
  filter returns two items.
\<close>

theorem fallback_float32_counterexample:
  "relevance_threshold (mgr ex_world) = 65 / 100 \<and>
   (5452595 / 8388608 :: real) < 65 / 100 \<and>
   fst (filter_relevant_chunks ex_world ''q'' [0, 1] [5452595 / 8388608, 5452595 / 8388608])
     = Inr [0, 1]"
  by (simp add: filter_relevant_chunks_def ex_world_def init_manager_def
      np_threshold_def float32_threshold_def round_def)

text \<open>
  C1, amended. The threshold is taken as line 140 compares it with a score
  (\<open>np_threshold\<close>: the threshold itself under numpy 1, its float32 rounding under
  numpy 2). On the empty candidate sequence the filter returns the empty list and changes
  nothing. On a non-empty candidate sequence in which no score reaches the threshold so
  taken, it returns exactly one item, the first candidate of maximal score, and the
  relevance score in that chunk's metadata is then this score. On every candidate
  sequence the filter returns a list, and that list is empty exactly when the candidate
  sequence is empty.
\<close>

theorem filter_fallback:
  fixes cands :: "(addr \<times> real) list"
  shows "filter_relevant_chunks w q [] scores = (Inr [], w) \<and>
    (cands \<noteq> [] \<and> (\<forall>p\<in>set cands. snd p < np_threshold w) \<longrightarrow>
       (\<exists>i w'. i < length cands \<and>
          (\<forall>j<length cands. snd (cands ! j) \<le> snd (cands ! i)) \<and>
          (\<forall>j<i. snd (cands ! j) < snd (cands ! i)) \<and>
          filter_relevant_chunks w q (map fst cands) (map snd cands) =
            (Inr [fst (cands ! i)], w') \<and>
          relevance_score (chunk_metadata (heap w' (fst (cands ! i)))) = Some (snd (cands ! i)))) \<and>
    (\<exists>res w'. filter_relevant_chunks w q (map fst cands) (map snd cands) = (Inr res, w') \<and>
       (res = [] \<longleftrightarrow> cands = []))"
proof (intro conjI impI)
  show "filter_relevant_chunks w q [] scores = (Inr [], w)"
    by (simp add: filter_relevant_chunks_def)
next
  assume a: "cands \<noteq> [] \<and> (\<forall>p\<in>set cands. snd p < np_threshold w)"
  from filter_relevant_chunks_below[of cands w q] a obtain i where
    i: "i < length cands" "\<forall>j<length cands. snd (cands ! j) \<le> snd (cands ! i)"
       "\<forall>j<i. snd (cands ! j) < snd (cands ! i)"
       "filter_relevant_chunks w q (map fst cands) (map snd cands) =
          (Inr [fst (cands ! i)],
           w\<lparr>heap := set_relevance_score (heap w) (fst (cands ! i)) (snd (cands ! i))\<rparr>)"
    by blast
  have "relevance_score (chunk_metadata
          (heap (w\<lparr>heap := set_relevance_score (heap w) (fst (cands ! i)) (snd (cands ! i))\<rparr>)
             (fst (cands ! i)))) = Some (snd (cands ! i))"
    by (simp add: set_relevance_score_def)
  with i show "\<exists>i w'. i < length cands \<and>
          (\<forall>j<length cands. snd (cands ! j) \<le> snd (cands ! i)) \<and>
          (\<forall>j<i. snd (cands ! j) < snd (cands ! i)) \<and>
          filter_relevant_chunks w q (map fst cands) (map snd cands) =
            (Inr [fst (cands ! i)], w') \<and>
          relevance_score (chunk_metadata (heap w' (fst (cands ! i)))) = Some (snd (cands ! i))"
    by blast
next
  from filter_relevant_chunks_total[of w q cands]
  show "\<exists>res w'. filter_relevant_chunks w q (map fst cands) (map snd cands) = (Inr res, w') \<and>
       (res = [] \<longleftrightarrow> cands = [])"
    by blast
qed

text \<open>
  The scenario of the specification: scores 0.5, 0.4, 0.3 under the threshold 0.65,
  compared as numpy 2 does, give the chunk scored 0.5, with 0.5 written into it.
\<close>

theorem filter_fallback_witness:
  "ex_low \<noteq> [] \<and> list_all (\<lambda>p. snd p < np_threshold ex_world) ex_low \<and>
   (\<exists>w'. filter_relevant_chunks ex_world ''q'' [0, 1, 2] [5 / 10, 4 / 10, 3 / 10] = (Inr [0], w') \<and>
      relevance_score (chunk_metadata (heap w' 0)) = Some (5 / 10))"
proof -
  have h: "ex_low \<noteq> [] \<and> (\<forall>p\<in>set ex_low. snd p < np_threshold ex_world)"
    by (simp add: ex_low_def ex_world_def init_manager_def np_threshold_def float32_threshold_def round_def)
  from filter_fallback[of ex_world "''q''" "[]" ex_low] h obtain i w' where
    i: "i < length ex_low" "\<forall>j<length ex_low. snd (ex_low ! j) \<le> snd (ex_low ! i)"
       "filter_relevant_chunks ex_world ''q'' (map fst ex_low) (map snd ex_low) =
            (Inr [fst (ex_low ! i)], w')"
       "relevance_score (chunk_metadata (heap w' (fst (ex_low ! i)))) = Some (snd (ex_low ! i))"
    by blast
  have "i = 0 \<or> i = 1 \<or> i = 2" using i(1) by (auto simp: ex_low_def)
  moreover have "snd (ex_low ! 0) \<le> snd (ex_low ! i)"
    using i(2)[rule_format, of 0] by (simp add: ex_low_def)
  ultimately have "i = 0" by (auto simp: ex_low_def)
  with i(3,4) have "filter_relevant_chunks ex_world ''q'' [0, 1, 2] [5 / 10, 4 / 10, 3 / 10] = (Inr [0], w') \<and>
      relevance_score (chunk_metadata (heap w' 0)) = Some (5 / 10)"
    by (simp add: ex_low_def)
  with h show ?thesis by (simp add: list_all_iff)
qed

text \<open>
  Against C2 as stated. First, a candidate sequence in which the same chunk object occurs
  twice, with the scores 0.9 and 0.7: both occurrences are returned, and the one chunk
  carries 0.7, the score written last, so the first returned item does not carry its
  score 0.9. Second, under numpy 2 a candidate scoring 5452595/8388608, below 0.65, is
  returned.
\<close>

theorem threshold_alias_counterexample:
  "fst (filter_relevant_chunks ex_world ''q'' [0, 0] [9 / 10, 7 / 10]) = Inr [0, 0] \<and>
   relevance_score (chunk_metadata
     (heap (snd (filter_relevant_chunks ex_world ''q'' [0, 0] [9 / 10, 7 / 10])) 0)) = Some (7 / 10) \<and>
   (5452595 / 8388608 :: real) < 65 / 100 \<and>
   fst (filter_relevant_chunks ex_world ''q'' [0, 1] [9 / 10, 5452595 / 8388608]) = Inr [0, 1]"
  by (simp add: filter_relevant_chunks_def set_relevance_score_def ex_world_def init_manager_def
      np_threshold_def float32_threshold_def round_def)

text \<open>
  C2, amended. The threshold of a new manager is 0.65, and it is taken as line 140
  compares it with a score (\<open>np_threshold\<close>). On a candidate sequence with at least one
  score at or above the threshold so taken, the filter returns exactly the subsequence
  of the candidates whose score is at or above it, in their order, so no candidate below
  it is among them. Every returned chunk carries as relevance score a score with which
  it was a candidate at or above the threshold. When the candidates are distinct chunk
  objects this is the candidate's own score, and a candidate below the threshold is
  neither returned nor written to.
\<close>

theorem filter_threshold:
  fixes cands :: "(addr \<times> real) list"
  assumes "\<exists>p\<in>set cands. np_threshold w \<le> snd p"
  shows "relevance_threshold (init_manager m) = 65 / 100 \<and>
    (\<exists>w'. filter_relevant_chunks w q (map fst cands) (map snd cands) =
        (Inr (map fst (filter (\<lambda>p. np_threshold w \<le> snd p) cands)), w') \<and>
      (\<forall>c\<in>set (map fst (filter (\<lambda>p. np_threshold w \<le> snd p) cands)).
         \<exists>s. (c, s) \<in> set cands \<and> np_threshold w \<le> s \<and>
             relevance_score (chunk_metadata (heap w' c)) = Some s) \<and>
      (distinct (map fst cands) \<longrightarrow>
         (\<forall>p\<in>set cands.
            if np_threshold w \<le> snd p
            then relevance_score (chunk_metadata (heap w' (fst p))) = Some (snd p)
            else fst p \<notin> set (map fst (filter (\<lambda>p. np_threshold w \<le> snd p) cands)) \<and>
                 heap w' (fst p) = heap w (fst p))))"
proof -
  let ?thr = "np_threshold w"
  let ?h = "fst (mark_relevant ?thr (heap w) cands [])"
  from filter_relevant_chunks_distinct[OF assms, of m q] obtain w' where
    w': "filter_relevant_chunks w q (map fst cands) (map snd cands) =
        (Inr (map fst (filter (\<lambda>p. ?thr \<le> snd p) cands)), w')"
      "distinct (map fst cands) \<longrightarrow>
         (\<forall>p\<in>set cands.
            if ?thr \<le> snd p
            then relevance_score (chunk_metadata (heap w' (fst p))) = Some (snd p)
            else fst p \<notin> set (map fst (filter (\<lambda>p. ?thr \<le> snd p) cands)) \<and>
                 heap w' (fst p) = heap w (fst p))"
    by blast
  from filter_relevant_chunks_above[OF assms, of q] w'(1) have hw: "heap w' = ?h" by simp
  have "\<forall>c\<in>set (map fst (filter (\<lambda>p. ?thr \<le> snd p) cands)).
         \<exists>s. (c, s) \<in> set cands \<and> ?thr \<le> s \<and>
             relevance_score (chunk_metadata (heap w' c)) = Some s"
  proof
    fix c assume "c \<in> set (map fst (filter (\<lambda>p. ?thr \<le> snd p) cands))"
    then have "c \<in> fst ` {p \<in> set cands. ?thr \<le> snd p}" by auto
    from mark_relevant_some[OF this, of "heap w" "[]"]
    show "\<exists>s. (c, s) \<in> set cands \<and> ?thr \<le> s \<and>
             relevance_score (chunk_metadata (heap w' c)) = Some s"
      unfolding hw .
  qed
  moreover have "relevance_threshold (init_manager m) = 65 / 100" by (simp add: init_manager_def)
  ultimately show ?thesis using w' by blast
qed

text \<open>
  Scores 0.9, 0.5, 0.7 under the threshold 0.65 keep the first and the third chunk.
\<close>

theorem filter_threshold_witness:
  "(\<exists>p\<in>set ex_mixed. np_threshold ex_world \<le> snd p) \<and> distinct (map fst ex_mixed) \<and>
   (\<exists>w'. filter_relevant_chunks ex_world ''q'' [0, 1, 2] [9 / 10, 5 / 10, 7 / 10] = (Inr [0, 2], w') \<and>
      relevance_score (chunk_metadata (heap w' 0)) = Some (9 / 10) \<and>
      heap w' 1 = heap ex_world 1 \<and>
      relevance_score (chunk_metadata (heap w' 2)) = Some (7 / 10))"
proof -
  have h: "\<exists>p\<in>set ex_mixed. np_threshold ex_world \<le> snd p"
    by (simp add: ex_mixed_def ex_world_def init_manager_def np_threshold_def float32_threshold_def round_def)
  have d: "distinct (map fst ex_mixed)" by (simp add: ex_mixed_def)
  have thr: "np_threshold ex_world = 5452595 / 8388608"
    by (simp add: ex_world_def init_manager_def np_threshold_def float32_threshold_def round_def)
  from filter_threshold[OF h, of ex_model "''q''"] d obtain w' where
    w': "filter_relevant_chunks ex_world ''q'' (map fst ex_mixed) (map snd ex_mixed) =
        (Inr (map fst (filter (\<lambda>p. np_threshold ex_world \<le> snd p) ex_mixed)), w')"
      "\<forall>p\<in>set ex_mixed.
            if np_threshold ex_world \<le> snd p
            then relevance_score (chunk_metadata (heap w' (fst p))) = Some (snd p)
            else fst p \<notin> set (map fst (filter (\<lambda>p. np_threshold ex_world \<le> snd p) ex_mixed)) \<and>
                 heap w' (fst p) = heap ex_world (fst p)"
    by blast
  from w' have "filter_relevant_chunks ex_world ''q'' [0, 1, 2] [9 / 10, 5 / 10, 7 / 10] = (Inr [0, 2], w') \<and>
      relevance_score (chunk_metadata (heap w' 0)) = Some (9 / 10) \<and>
      heap w' 1 = heap ex_world 1 \<and>
      relevance_score (chunk_metadata (heap w' 2)) = Some (7 / 10)"
    by (simp add: ex_mixed_def thr)
  with h d show ?thesis by blast
qed

text \<open>
  C3. When \<^verbatim>\<open>create_embeddings\<close> returns, on an encoder that gives one vector per text,
  the chunk sequence was not empty, the manager holds that chunk sequence and an index
  with exactly one vector per chunk (its size is the length of the chunk sequence), and
  every chunk that a later search of this manager returns, whatever the FAISS search
  answers, is an element of the chunk sequence that was built.
\<close>

theorem build_alignment:
  assumes built: "create_embeddings w cs = (Inr embs, w1)"
    and contract: "\<forall>ts vs. model (mgr w) ts = Inr vs \<longrightarrow> length vs = length ts"
  shows "cs \<noteq> [] \<and> chunks (mgr w1) = Some cs \<and>
    (\<exists>ix. index (mgr w1) = Some ix \<and> rows ix = embs \<and> ntotal ix = length cs) \<and>
    (\<forall>w2 fs q k res w3. mgr w2 = mgr w1 \<and> search_similar_chunks fs w2 q k = (Inr res, w3)
        \<longrightarrow> set res \<subseteq> set cs)"
proof -
  from create_embeddings_Inr[OF built] have
    m: "model (mgr w) (map (\<lambda>c. chunk_text (heap w c)) cs) = Inr embs" and ne: "embs \<noteq> []" and
    w1: "w1 = w\<lparr>mgr := (mgr w)\<lparr>chunks := Some cs,
                 index := Some \<lparr>dimension = length (hd embs), rows = embs\<rparr>\<rparr>\<rparr>"
    by auto
  from contract m have len: "length embs = length cs" by fastforce
  with ne have "cs \<noteq> []" by auto
  moreover have "chunks (mgr w1) = Some cs" by (simp add: w1)
  moreover have "\<exists>ix. index (mgr w1) = Some ix \<and> rows ix = embs \<and> ntotal ix = length cs"
    by (simp add: w1 ntotal_def len)
  moreover have "\<forall>w2 fs q k res w3. mgr w2 = mgr w1 \<and> search_similar_chunks fs w2 q k = (Inr res, w3)
        \<longrightarrow> set res \<subseteq> set cs"
  proof (intro allI impI)
    fix w2 fs q k res w3
    assume a: "mgr w2 = mgr w1 \<and> search_similar_chunks fs w2 q k = (Inr res, w3)"
    from search_similar_chunks_sub[of fs w2 q k res w3] a obtain cs' where
      "chunks (mgr w2) = Some cs'" "set res \<subseteq> set cs'" by blast
    with a show "set res \<subseteq> set cs" by (simp add: w1)
  qed
  ultimately show ?thesis by blast
qed

text \<open>
  Building the three chunks gives an index of size 3, and the search of the
  scenario returns chunk 0.
\<close>

theorem build_alignment_witness:
  "create_embeddings ex_world [0, 1, 2] = (Inr [[1], [1], [1]], ex_built) \<and>
   chunks (mgr ex_built) = Some [0, 1, 2] \<and>
   ntotal (the (index (mgr ex_built))) = 3 \<and>
   fst (search_similar_chunks ex_search ex_built ''q'' 3) = Inr [0] \<and>
   set [0] \<subseteq> set [0, 1, 2 :: nat]"
proof -
  have b: "create_embeddings ex_world [0, 1, 2] = (Inr [[1], [1], [1]], ex_built)"
    by (simp add: ex_built_def create_embeddings_def ex_world_def init_manager_def ex_model_def
      Let_def)
  have c: "\<forall>ts vs. model (mgr ex_world) ts = Inr vs \<longrightarrow> length vs = length ts"
    by (auto simp: ex_world_def init_manager_def ex_model_def)
  have s: "mgr ex_built = mgr ex_built \<and>
     search_similar_chunks ex_search ex_built ''q'' 3 =
       (Inr [0], ex_built\<lparr>heap := set_relevance_score ex_heap 0 (9 / 10)\<rparr>)"
    using ex_search_run by simp
  from build_alignment[OF b c] have
    1: "chunks (mgr ex_built) = Some [0, 1, 2]" and
    2: "\<exists>ix. index (mgr ex_built) = Some ix \<and> rows ix = [[1], [1], [1]] \<and> ntotal ix = length [0, 1, 2 :: nat]" and
    3: "\<forall>w2 fs q k res w3. mgr w2 = mgr ex_built \<and> search_similar_chunks fs w2 q k = (Inr res, w3)
        \<longrightarrow> set res \<subseteq> set [0, 1, 2]"
    by blast+
  from 3 s have "set [0] \<subseteq> set [0, 1, 2 :: nat]" by blast
  moreover from 2 have "ntotal (the (index (mgr ex_built))) = 3" by auto
  ultimately show ?thesis using b 1 ex_search_run by simp
qed

text \<open>
  C4. The guard of line 178 is \<^verbatim>\<open>idx < len(self.chunks)\<close> only, so it keeps the id
  \<open>-1\<close> with which FAISS pads its hits, and \<^verbatim>\<open>self.chunks[-1]\<close> is the last chunk.
  Loading the snapshot of \<open>ex_stale\<close> (an index without vectors beside one chunk) and
  searching with \<open>k = 1\<close> returns that chunk, although the only id FAISS gave is \<open>-1\<close>.
  With three chunks and five hits asked for, the two padding ids put the last chunk
  among the candidates twice more.
\<close>

theorem negative_id_kept:
  "load_embeddings ex_stale default_prefix =
     (True, ex_stale\<lparr>mgr := (mgr ex_stale)\<lparr>index := Some (IndexFlatIP 1), chunks := Some [3]\<rparr>,
                     heap := ex_heap(3 := ex_heap 0), next_addr := 4\<rparr>) \<and>
   stale_search (IndexFlatIP 1) [[1]] 1 = Inr [(- 340282346638528859811704183484516925440, - 1)] \<and>
   fst (search_similar_chunks stale_search (snd (load_embeddings ex_stale default_prefix)) ''q'' 1)
     = Inr [3] \<and>
   collect_results [0, 1, 2]
     [(5 / 10, 0), (4 / 10, 2), (3 / 10, 1), faiss_padding, faiss_padding] [] []
     = Inr ([0, 2, 1, 2, 2], [5 / 10, 4 / 10, 3 / 10, fst faiss_padding, fst faiss_padding])"
  by (simp add: load_embeddings_def ex_stale_def ex_world_def init_manager_def index_path_def
      chunks_path_def os_path_join_def default_prefix_def pickle_load_def
      search_similar_chunks_def ex_model_def stale_search_def faiss_padding_def py_index_def
      filter_relevant_chunks_def np_argmax_def np_threshold_def float32_threshold_def round_def)

text \<open>
  Against C5 as stated: the manager of \<open>ex_failing\<close> holds the chunks 0, 1, 2; building
  the chunks 1, 2 fails in the encoder, and the manager then holds the chunks 1, 2.
\<close>

theorem build_not_atomic_counterexample:
  "chunks (mgr ex_failing) = Some [0, 1, 2] \<and>
   fst (create_embeddings ex_failing [1, 2]) = Inl EmbeddingError \<and>
   chunks (mgr (snd (create_embeddings ex_failing [1, 2]))) = Some [1, 2] \<and>
   chunks (mgr (snd (create_embeddings ex_failing [1, 2]))) \<noteq> chunks (mgr ex_failing)"
  by (simp add: create_embeddings_def Let_def ex_failing_def ex_built_eq failing_model_def)

text \<open>
  C5, amended. \<^verbatim>\<open>create_embeddings\<close> assigns the chunk sequence before it encodes.
  When the encoder raises, the error is propagated, the manager holds the new chunk
  sequence, and the index (like everything else) is as it was; the same holds, with
  IndexError, when the encoder returns no row. When the encoder returns a non-empty
  matrix, the manager holds the new chunk sequence and a fresh index made of
  exactly the rows of that matrix, whatever index it held before.
\<close>

theorem build_replaces_state:
  "(\<forall>e. model (mgr w) (map (\<lambda>c. chunk_text (heap w c)) cs) = Inl e \<longrightarrow>
      create_embeddings w cs = (Inl e, w\<lparr>mgr := (mgr w)\<lparr>chunks := Some cs\<rparr>\<rparr>)) \<and>
   (model (mgr w) (map (\<lambda>c. chunk_text (heap w c)) cs) = Inr [] \<longrightarrow>
      create_embeddings w cs =
        (Inl IndexError, w\<lparr>mgr := (mgr w)\<lparr>chunks := Some cs\<rparr>\<rparr>)) \<and>
   (\<forall>v vs. model (mgr w) (map (\<lambda>c. chunk_text (heap w c)) cs) = Inr (v # vs) \<longrightarrow>
      create_embeddings w cs =
        (Inr (v # vs),
         w\<lparr>mgr := (mgr w)\<lparr>chunks := Some cs,
                           index := Some \<lparr>dimension = length v, rows = v # vs\<rparr>\<rparr>\<rparr>))"
  using create_embeddings_fail create_embeddings_empty create_embeddings_ok by blast

text \<open>
  Both cases on the built world: with the encoder that raises, and with the encoder
  that works.
\<close>

theorem build_replaces_state_witness:
  "create_embeddings ex_failing [1, 2] =
     (Inl EmbeddingError, ex_failing\<lparr>mgr := (mgr ex_failing)\<lparr>chunks := Some [1, 2]\<rparr>\<rparr>) \<and>
   index (mgr (snd (create_embeddings ex_failing [1, 2]))) = index (mgr ex_failing) \<and>
   create_embeddings ex_built [1, 2] =
     (Inr [[1], [1]],
      ex_built\<lparr>mgr := (mgr ex_built)\<lparr>chunks := Some [1, 2],
                  index := Some \<lparr>dimension = 1, rows = [[1], [1]]\<rparr>\<rparr>\<rparr>)"
proof -
  have f: "model (mgr ex_failing) (map (\<lambda>c. chunk_text (heap ex_failing c)) [1, 2]) = Inl EmbeddingError"
    by (simp add: ex_failing_def failing_model_def)
  have s: "model (mgr ex_built) (map (\<lambda>c. chunk_text (heap ex_built c)) [1, 2]) = Inr ([1] # [[1]])"
    by (simp add: ex_built_eq ex_world_def init_manager_def ex_model_def)
  from build_replaces_state[of ex_failing "[1, 2]"] f
  have 1: "create_embeddings ex_failing [1, 2] =
     (Inl EmbeddingError, ex_failing\<lparr>mgr := (mgr ex_failing)\<lparr>chunks := Some [1, 2]\<rparr>\<rparr>)"
    by blast
  from build_replaces_state[of ex_built "[1, 2]"] s
  have 2: "create_embeddings ex_built [1, 2] =
     (Inr [[1], [1]],
      ex_built\<lparr>mgr := (mgr ex_built)\<lparr>chunks := Some [1, 2],
                  index := Some \<lparr>dimension = 1, rows = [[1], [1]]\<rparr>\<rparr>\<rparr>)"
    by auto
  from 1 2 show ?thesis by simp
qed

text \<open>
  Against C6 as stated: after a search in the built world the stored chunk 0 is not
  what it was, it carries the relevance score 0.9; the score is not transient, for
  persisting the manager afterwards writes it into the chunk file.
\<close>

theorem relevance_score_persists_counterexample:
  "chunks (mgr ex_built) = Some [0, 1, 2] \<and>
   relevance_score (chunk_metadata (heap ex_built 0)) = None \<and>
   chunks (mgr ex_searched) = Some [0, 1, 2] \<and>
   relevance_score (chunk_metadata (heap ex_searched 0)) = Some (9 / 10) \<and>
   heap ex_searched 0 \<noteq> heap ex_built 0 \<and>
   map (relevance_score \<circ> chunk_metadata)
     (the (chunk_files ex_saved ''embeddings/university_combined_chunks.pkl''))
     = [Some (9 / 10), None, None]"
proof -
  have s: "ex_searched = ex_built\<lparr>heap := set_relevance_score ex_heap 0 (9 / 10)\<rparr>"
    by (simp add: ex_searched_def ex_search_run)
  have 1: "chunks (mgr ex_built) = Some [0, 1, 2] \<and>
        relevance_score (chunk_metadata (heap ex_built 0)) = None"
    by (simp add: ex_built_eq ex_world_def ex_heap_def)
  have 2: "chunks (mgr ex_searched) = Some [0, 1, 2] \<and>
        relevance_score (chunk_metadata (heap ex_searched 0)) = Some (9 / 10)"
    by (simp add: s ex_built_eq set_relevance_score_def)
  have 3: "map (relevance_score \<circ> chunk_metadata)
     (the (chunk_files ex_saved ''embeddings/university_combined_chunks.pkl''))
     = [Some (9 / 10), None, None]"
    by (simp add: ex_saved_def s save_embeddings_def writable_def valid_name_def basename_def ex_built_eq ex_world_def init_manager_def
        Let_def chunks_path_def index_path_def os_path_join_def default_prefix_def
        pickle_dump_def set_relevance_score_def ex_heap_def)
  from 1 2 have "heap ex_searched 0 \<noteq> heap ex_built 0" by auto
  with 1 2 3 show ?thesis by simp
qed

text \<open>
  C6, amended. A search changes neither the manager (its chunk sequence and index),
  nor the files, nor the allocation pointer, and of every chunk in the store it leaves
  the text and the metadata entries source, chunk\_id and type as they were. The
  relevance score is written into the stored chunk itself: every returned chunk carries
  one in the store afterwards, and a later \<^verbatim>\<open>save_embeddings\<close> writes the chunks as the
  store then has them, wherever it can write its two files, as it can under the name
  \<open>university_combined\<close>.
\<close>

theorem search_frame:
  "\<exists>r w'. search_similar_chunks fs w q k = (r, w') \<and>
     mgr w' = mgr w \<and> next_addr w' = next_addr w \<and>
     index_files w' = index_files w \<and> chunk_files w' = chunk_files w \<and>
     (\<forall>a. chunk_text (heap w' a) = chunk_text (heap w a) \<and>
          source (chunk_metadata (heap w' a)) = source (chunk_metadata (heap w a)) \<and>
          chunk_id (chunk_metadata (heap w' a)) = chunk_id (chunk_metadata (heap w a)) \<and>
          mtype (chunk_metadata (heap w' a)) = mtype (chunk_metadata (heap w a))) \<and>
     (\<forall>res. r = Inr res \<longrightarrow>
        (\<forall>a\<in>set res. relevance_score (chunk_metadata (heap w' a)) \<noteq> None)) \<and>
     (\<forall>ix cs. index (mgr w) = Some ix \<and> chunks (mgr w) = Some cs \<and>
          writable w (p @ ''_index.faiss'') \<and> writable w (p @ ''_chunks.pkl'') \<longrightarrow>
        chunk_files (snd (save_embeddings w' p)) (chunks_path (mgr w) p) = Some (map (heap w') cs)) \<and>
     (\<forall>ix cs. index (mgr w) = Some ix \<and> chunks (mgr w) = Some cs \<longrightarrow>
        chunk_files (snd (save_embeddings w' ''university_combined''))
          (chunks_path (mgr w) ''university_combined'') = Some (map (heap w') cs))"
proof -
  obtain r w' where run: "search_similar_chunks fs w q k = (r, w')"
    by (cases "search_similar_chunks fs w q k") auto
  have frame: "mgr w' = mgr w \<and> next_addr w' = next_addr w \<and> index_files w' = index_files w \<and>
         chunk_files w' = chunk_files w \<and>
         (\<forall>a. chunk_text (heap w' a) = chunk_text (heap w a) \<and>
              source (chunk_metadata (heap w' a)) = source (chunk_metadata (heap w a)) \<and>
              chunk_id (chunk_metadata (heap w' a)) = chunk_id (chunk_metadata (heap w a)) \<and>
              mtype (chunk_metadata (heap w' a)) = mtype (chunk_metadata (heap w a))) \<and>
         (\<forall>res. r = Inr res \<longrightarrow>
            (\<forall>a\<in>set res. relevance_score (chunk_metadata (heap w' a)) \<noteq> None))"
  proof -
    from search_similar_chunks_cases[OF run] consider
      (err) e where "r = Inl e" "w' = w"
      | (filt) rs ss where "filter_relevant_chunks w q rs ss = (r, w')"
      by blast
    then show ?thesis
    proof cases
      case err
      then show ?thesis by simp
    next
      case filt
      from filter_relevant_chunks_frame[OF filt] show ?thesis .
    qed
  qed
  have sv: "chunk_files (snd (save_embeddings w' p')) (chunks_path (mgr w) p') = Some (map (heap w') cs)"
    if held: "index (mgr w) = Some ix \<and> chunks (mgr w) = Some cs \<and>
          writable w (p' @ ''_index.faiss'') \<and> writable w (p' @ ''_chunks.pkl'')" for ix cs p'
  proof -
    from search_similar_chunks_dirs[OF run]
    have same: "embeddings_folder (mgr w') = embeddings_folder (mgr w)" "directories w' = directories w"
      and m: "mgr w' = mgr w"
      by simp_all
    have wr: "writable w' (p' @ ''_index.faiss'')" "writable w' (p' @ ''_chunks.pkl'')"
      using held by (simp_all add: writable_cong[OF same])
    have "index (mgr w') = Some ix" "chunks (mgr w') = Some cs" using held m by simp_all
    from save_embeddings_ok[OF this wr] show ?thesis by (simp add: m)
  qed
  have plain: "writable w (''university_combined'' @ ''_index.faiss'') \<and>
      writable w (''university_combined'' @ ''_chunks.pkl'')"
    by (simp add: writable_def valid_name_def basename_def)
  have svd: "\<forall>ix cs. index (mgr w) = Some ix \<and> chunks (mgr w) = Some cs \<longrightarrow>
        chunk_files (snd (save_embeddings w' ''university_combined''))
          (chunks_path (mgr w) ''university_combined'') = Some (map (heap w') cs)"
    using sv[of _ _ "''university_combined''"] plain by blast
  have svp: "\<forall>ix cs. index (mgr w) = Some ix \<and> chunks (mgr w) = Some cs \<and>
          writable w (p @ ''_index.faiss'') \<and> writable w (p @ ''_chunks.pkl'') \<longrightarrow>
        chunk_files (snd (save_embeddings w' p)) (chunks_path (mgr w) p) = Some (map (heap w') cs)"
    using sv[of _ _ p] by blast
  from run frame svp svd show ?thesis by blast
qed

text \<open>
  The search of the scenario in the built world.
\<close>

theorem search_frame_witness:
  "search_similar_chunks ex_search ex_built ''q'' 3 = (Inr [0], ex_searched) \<and>
   mgr ex_searched = mgr ex_built \<and>
   chunk_text (heap ex_searched 0) = chunk_text (heap ex_built 0) \<and>
   source (chunk_metadata (heap ex_searched 0)) = source (chunk_metadata (heap ex_built 0)) \<and>
   relevance_score (chunk_metadata (heap ex_searched 0)) \<noteq> None \<and>
   chunk_files (snd (save_embeddings ex_searched default_prefix))
     (chunks_path (mgr ex_built) default_prefix) = Some (map (heap ex_searched) [0, 1, 2])"
proof -
  have run: "search_similar_chunks ex_search ex_built ''q'' 3 = (Inr [0], ex_searched)"
    by (simp add: ex_searched_def ex_search_run)
  have held: "index (mgr ex_built) = Some \<lparr>dimension = 1, rows = [[1], [1], [1]]\<rparr> \<and>
              chunks (mgr ex_built) = Some [0, 1, 2]"
    by (simp add: ex_built_eq)
  from search_frame[of ex_search ex_built "''q''" 3 default_prefix] run obtain
    f: "mgr ex_searched = mgr ex_built"
       "\<forall>a. chunk_text (heap ex_searched a) = chunk_text (heap ex_built a) \<and>
          source (chunk_metadata (heap ex_searched a)) = source (chunk_metadata (heap ex_built a)) \<and>
          chunk_id (chunk_metadata (heap ex_searched a)) = chunk_id (chunk_metadata (heap ex_built a)) \<and>
          mtype (chunk_metadata (heap ex_searched a)) = mtype (chunk_metadata (heap ex_built a))"
       "\<forall>res. Inr [0] = Inr res \<longrightarrow>
          (\<forall>a\<in>set res. relevance_score (chunk_metadata (heap ex_searched a)) \<noteq> None)"
       "\<forall>ix cs. index (mgr ex_built) = Some ix \<and> chunks (mgr ex_built) = Some cs \<and>
          writable ex_built (default_prefix @ ''_index.faiss'') \<and>
          writable ex_built (default_prefix @ ''_chunks.pkl'') \<longrightarrow>
          chunk_files (snd (save_embeddings ex_searched default_prefix))
            (chunks_path (mgr ex_built) default_prefix) = Some (map (heap ex_searched) cs)"
    by auto
  from f(3) have "relevance_score (chunk_metadata (heap ex_searched 0)) \<noteq> None" by simp
  moreover have "writable ex_built (default_prefix @ ''_index.faiss'') \<and>
          writable ex_built (default_prefix @ ''_chunks.pkl'')"
    by (simp add: writable_def valid_name_def basename_def default_prefix_def)
  with f(4) held have "chunk_files (snd (save_embeddings ex_searched default_prefix))
     (chunks_path (mgr ex_built) default_prefix) = Some (map (heap ex_searched) [0, 1, 2])"
    by blast
  ultimately show ?thesis using run f(1,2) by simp
qed

text \<open>
  Against C7 as stated: the prefix \<open>no_such_dir/x\<close> names files in a directory below the
  storage folder that does not exist, and nothing creates it. After a build of the three
  chunks, \<^verbatim>\<open>save_embeddings\<close> with this prefix raises at its first write, nothing is
  written, and \<^verbatim>\<open>load_embeddings\<close> returns False.
\<close>

theorem roundtrip_missing_directory_counterexample:
  "create_embeddings ex_world [0, 1, 2] = (Inr [[1], [1], [1]], ex_built) \<and>
   save_embeddings ex_built ''no_such_dir/x'' = (Inl IOError, ex_built) \<and>
   load_embeddings ex_built ''no_such_dir/x'' = (False, ex_built)"
  by (simp add: ex_built_def create_embeddings_def save_embeddings_def load_embeddings_def
      writable_def valid_name_def basename_def os_path_join_def dirname_def index_path_def chunks_path_def
      ex_world_def init_manager_def ex_model_def Let_def IndexFlatIP_def index_add_def)

text \<open>
  C7, amended. For a non-empty chunk sequence on which the encoder returns one vector
  per text, and every prefix whose two files can be written (their names are valid file
  names, and either the prefix has no slash, so that the files lie in the storage
  folder, or the directory it names exists): \<^verbatim>\<open>create_embeddings\<close> returns,
  \<^verbatim>\<open>save_embeddings\<close> returns the two paths, and \<^verbatim>\<open>load_embeddings\<close> of the same prefix,
  by this manager or by any manager with the same storage folder, returns True with an
  index of one vector per chunk and a chunk sequence whose chunks are, in order, equal to
  those that were built.
\<close>

theorem snapshot_roundtrip:
  assumes ne: "cs \<noteq> []"
    and enc: "model (mgr w) (map (\<lambda>c. chunk_text (heap w c)) cs) = Inr vs"
    and len: "length vs = length cs"
    and wr: "writable w (p @ ''_index.faiss'')" "writable w (p @ ''_chunks.pkl'')"
  shows "\<exists>w1 w2. create_embeddings w cs = (Inr vs, w1) \<and>
      save_embeddings w1 p = (Inr (index_path (mgr w) p, chunks_path (mgr w) p), w2) \<and>
      (\<forall>m'. embeddings_folder m' = embeddings_folder (mgr w) \<longrightarrow>
         (\<exists>w3 ix cs'. load_embeddings (w2\<lparr>mgr := m'\<rparr>) p = (True, w3) \<and>
            index (mgr w3) = Some ix \<and> ntotal ix = length cs \<and>
            chunks (mgr w3) = Some cs' \<and> map (heap w3) cs' = map (heap w) cs))"
proof -
  from ne len obtain v vs' where vs: "vs = v # vs'" by (cases vs) auto
  let ?ix = "\<lparr>dimension = length v, rows = v # vs'\<rparr>"
  let ?w1 = "w\<lparr>mgr := (mgr w)\<lparr>chunks := Some cs, index := Some ?ix\<rparr>\<rparr>"
  let ?w2 = "?w1\<lparr>index_files := (index_files ?w1)(index_path (mgr ?w1) p \<mapsto> ?ix),
        chunk_files := (chunk_files ?w1)(chunks_path (mgr ?w1) p \<mapsto> map (heap ?w1) cs)\<rparr>"
  have c: "create_embeddings w cs = (Inr vs, ?w1)"
    using create_embeddings_ok[of w cs v vs'] enc vs by simp
  have wr': "writable ?w1 (p @ ''_index.faiss'')" "writable ?w1 (p @ ''_chunks.pkl'')"
    using wr by (simp_all add: writable_def valid_name_def basename_def)
  have s: "save_embeddings ?w1 p = (Inr (index_path (mgr ?w1) p, chunks_path (mgr ?w1) p), ?w2)"
    by (rule save_embeddings_ok[OF _ _ wr']) simp_all
  have paths: "index_path (mgr ?w1) p = index_path (mgr w) p"
    "chunks_path (mgr ?w1) p = chunks_path (mgr w) p"
    by (simp_all add: index_path_def chunks_path_def)
  have paths': "index_path ((mgr w)\<lparr>chunks := Some cs, index := Some ?ix\<rparr>) p = index_path (mgr w) p"
    "chunks_path ((mgr w)\<lparr>chunks := Some cs, index := Some ?ix\<rparr>) p = chunks_path (mgr w) p"
    by (simp_all add: index_path_def chunks_path_def)
  have l: "\<exists>w3 ix cs'. load_embeddings (?w2\<lparr>mgr := m'\<rparr>) p = (True, w3) \<and>
            index (mgr w3) = Some ix \<and> ntotal ix = length cs \<and>
            chunks (mgr w3) = Some cs' \<and> map (heap w3) cs' = map (heap w) cs"
    if m': "embeddings_folder m' = embeddings_folder (mgr w)" for m'
  proof -
    have p': "index_path m' p = index_path (mgr w) p" "chunks_path m' p = chunks_path (mgr w) p"
      using m' by (simp_all add: index_path_def chunks_path_def)
    have a: "index_files (?w2\<lparr>mgr := m'\<rparr>) (index_path (mgr (?w2\<lparr>mgr := m'\<rparr>)) p) = Some ?ix"
      by (simp add: p' paths')
    have b: "chunk_files (?w2\<lparr>mgr := m'\<rparr>) (chunks_path (mgr (?w2\<lparr>mgr := m'\<rparr>)) p)
              = Some (map (heap w) cs)"
      by (simp add: p' paths')
    from load_embeddings_ok[OF a b] obtain w3 cs' where
      "load_embeddings (?w2\<lparr>mgr := m'\<rparr>) p = (True, w3)" "index (mgr w3) = Some ?ix"
      "chunks (mgr w3) = Some cs'" "map (heap w3) cs' = map (heap w) cs"
      by blast
    moreover have "ntotal ?ix = length cs" using len vs by (simp add: ntotal_def)
    ultimately show ?thesis by blast
  qed
  from c s l show ?thesis unfolding paths by blast
qed

text \<open>
  The three chunks, built, persisted under the prefix \<open>snap\<close> and loaded again.
\<close>

theorem snapshot_roundtrip_witness:
  "writable ex_world (''snap'' @ ''_index.faiss'') \<and>
   writable ex_world (''snap'' @ ''_chunks.pkl'') \<and>
   create_embeddings ex_world [0, 1, 2] = (Inr [[1], [1], [1]], ex_built) \<and>
   fst (save_embeddings ex_built ''snap'') =
     Inr (''embeddings/snap_index.faiss'', ''embeddings/snap_chunks.pkl'') \<and>
   fst (load_embeddings (snd (save_embeddings ex_built ''snap'')) ''snap'') = True \<and>
   map (heap (snd (load_embeddings (snd (save_embeddings ex_built ''snap'')) ''snap'')))
     (the (chunks (mgr (snd (load_embeddings (snd (save_embeddings ex_built ''snap'')) ''snap'')))))
     = map (heap ex_world) [0, 1, 2]"
proof -
  have ne: "[0, 1, 2] \<noteq> ([] :: nat list)" by simp
  have enc: "model (mgr ex_world) (map (\<lambda>c. chunk_text (heap ex_world c)) [0, 1, 2])
       = Inr [[1], [1], [1]]"
    by (simp add: ex_world_def init_manager_def ex_model_def)
  have len: "length [[1], [1], [1 :: real]] = length [0, 1, 2 :: nat]" by simp
  have wr: "writable ex_world (''snap'' @ ''_index.faiss'')"
    "writable ex_world (''snap'' @ ''_chunks.pkl'')"
    by (simp_all add: writable_def valid_name_def basename_def)
  from snapshot_roundtrip[OF ne enc len wr] obtain w1 w2 where
    r: "create_embeddings ex_world [0, 1, 2] = (Inr [[1], [1], [1]], w1)"
       "save_embeddings w1 ''snap'' =
          (Inr (index_path (mgr ex_world) ''snap'', chunks_path (mgr ex_world) ''snap''), w2)"
       "\<forall>m'. embeddings_folder m' = embeddings_folder (mgr ex_world) \<longrightarrow>
         (\<exists>w3 ix cs'. load_embeddings (w2\<lparr>mgr := m'\<rparr>) ''snap'' = (True, w3) \<and>
            index (mgr w3) = Some ix \<and> ntotal ix = length [0, 1, 2 :: nat] \<and>
            chunks (mgr w3) = Some cs' \<and> map (heap w3) cs' = map (heap ex_world) [0, 1, 2])"
    by blast
  have w1: "w1 = ex_built" using r(1) by (simp add: ex_built_def)
  have w2: "w2 = snd (save_embeddings ex_built ''snap'')" using r(2) w1 by simp
  have "embeddings_folder (mgr w2) = embeddings_folder (mgr ex_world)"
    by (simp add: w2 save_embeddings_def writable_def valid_name_def basename_def ex_built_eq Let_def)
  with r(3) obtain w3 cs' where
    l: "load_embeddings (w2\<lparr>mgr := mgr w2\<rparr>) ''snap'' = (True, w3)"
       "chunks (mgr w3) = Some cs'" "map (heap w3) cs' = map (heap ex_world) [0, 1, 2]"
    by blast
  have paths: "index_path (mgr ex_world) ''snap'' = ''embeddings/snap_index.faiss''"
      "chunks_path (mgr ex_world) ''snap'' = ''embeddings/snap_chunks.pkl''"
    by (simp_all add: index_path_def chunks_path_def os_path_join_def ex_world_def init_manager_def)
  from l have ld: "load_embeddings (snd (save_embeddings ex_built ''snap'')) ''snap'' = (True, w3)"
    by (simp add: w2)
  have sv: "fst (save_embeddings ex_built ''snap'') =
     Inr (''embeddings/snap_index.faiss'', ''embeddings/snap_chunks.pkl'')"
    using r(2) by (simp add: w1 paths)
  have cr: "create_embeddings ex_world [0, 1, 2] = (Inr [[1], [1], [1]], ex_built)"
    using r(1) by (simp add: w1)
  from cr sv l(2,3) wr show ?thesis by (simp add: ld)
qed

text \<open>
  Against C8 as stated: for the empty sequence of sources no chunk file is missing, yet
  \<^verbatim>\<open>combine_embeddings\<close> neither returns True nor persists anything: it builds on the
  empty chunk sequence, which raises IndexError at \<^verbatim>\<open>embeddings.shape[1]\<close>.
\<close>

theorem combine_empty_counterexample:
  "combine_embeddings ex_world [] =
     (Inl IndexError, ex_world\<lparr>mgr := (mgr ex_world)\<lparr>chunks := Some []\<rparr>\<rparr>) \<and>
   fst (combine_embeddings ex_world []) \<noteq> Inr True \<and>
   chunk_files (snd (combine_embeddings ex_world [])) ''embeddings/university_combined_chunks.pkl''
     = None"
  by (simp add: combine_embeddings_def create_embeddings_def Let_def ex_world_def
      init_manager_def ex_model_def)

text \<open>
  C8, amended. \<^verbatim>\<open>combine_embeddings\<close> returns False when the chunk file of some source
  is missing. When every source has its chunk file, the concatenation of their chunk
  sequences is not empty, and the encoder returns one vector per text on it, then
  \<^verbatim>\<open>combine_embeddings\<close> returns True; the manager then holds the concatenation, in the
  order of the sources, and an index of one vector per chunk; the number of chunks is the
  sum of the sources' numbers; both are written under the name
  \<open>university_combined\<close>, and loading that name recovers the concatenation.
\<close>

theorem combine_sources:
  "((\<exists>s\<in>set sources. chunk_files w (chunks_path (mgr w) s) = None) \<longrightarrow>
      fst (combine_embeddings w sources) = Inr False) \<and>
   (map (\<lambda>s. chunk_files w (chunks_path (mgr w) s)) sources = map Some pks \<and>
    concat pks \<noteq> [] \<and>
    model (mgr w) (map chunk_text (concat pks)) = Inr vs \<and> length vs = length (concat pks) \<longrightarrow>
      (\<exists>w' all ix. combine_embeddings w sources = (Inr True, w') \<and>
         chunks (mgr w') = Some all \<and> map (heap w') all = concat pks \<and>
         length all = sum_list (map length pks) \<and>
         index (mgr w') = Some ix \<and> rows ix = vs \<and> ntotal ix = length all \<and>
         index_files w' (index_path (mgr w) ''university_combined'') = Some ix \<and>
         chunk_files w' (chunks_path (mgr w) ''university_combined'') = Some (concat pks) \<and>
         (\<exists>w'' cs'. load_embeddings w' ''university_combined'' = (True, w'') \<and>
            chunks (mgr w'') = Some cs' \<and> map (heap w'') cs' = concat pks)))"
proof (intro conjI impI)
  assume "\<exists>s\<in>set sources. chunk_files w (chunks_path (mgr w) s) = None"
  then show "fst (combine_embeddings w sources) = Inr False"
    by (rule combine_embeddings_missing)
next
  assume a: "map (\<lambda>s. chunk_files w (chunks_path (mgr w) s)) sources = map Some pks \<and>
    concat pks \<noteq> [] \<and>
    model (mgr w) (map chunk_text (concat pks)) = Inr vs \<and> length vs = length (concat pks)"
  from a obtain v vs' where vs: "vs = v # vs'" by (cases vs) auto
  from a load_sources_present[of w sources pks "[]"] obtain all w1 where
    ls: "load_sources w sources [] = (Some all, w1)" "map (heap w1) all = concat pks"
    by auto
  from load_sources_frame[OF ls(1)] have
    fr: "mgr w1 = mgr w" "index_files w1 = index_files w" "chunk_files w1 = chunk_files w"
    by auto
  define ix where "ix = \<lparr>dimension = length v, rows = v # vs'\<rparr>"
  define w2 where "w2 = w1\<lparr>mgr := (mgr w1)\<lparr>chunks := Some all, index := Some ix\<rparr>\<rparr>"
  define w3 where "w3 = w2\<lparr>index_files := (index_files w2)(index_path (mgr w2) ''university_combined'' \<mapsto> ix),
        chunk_files := (chunk_files w2)(chunks_path (mgr w2) ''university_combined'' \<mapsto> map (heap w2) all)\<rparr>"
  have texts: "map (\<lambda>c. chunk_text (heap w1 c)) all = map chunk_text (map (heap w1) all)"
    by simp
  have enc: "model (mgr w1) (map (\<lambda>c. chunk_text (heap w1 c)) all) = Inr (v # vs')"
    using a vs unfolding texts ls(2) fr(1) by simp
  have c: "create_embeddings w1 all = (Inr (v # vs'), w2)"
    using create_embeddings_ok[OF enc] by (simp add: w2_def ix_def)
  have w2: "index (mgr w2) = Some ix" "chunks (mgr w2) = Some all" "heap w2 = heap w1"
    "index_path (mgr w2) ''university_combined'' = index_path (mgr w) ''university_combined''"
    "chunks_path (mgr w2) ''university_combined'' = chunks_path (mgr w) ''university_combined''"
    by (simp_all add: w2_def index_path_def chunks_path_def fr(1))
  have s: "save_embeddings w2 ''university_combined'' =
      (Inr (index_path (mgr w2) ''university_combined'',
            chunks_path (mgr w2) ''university_combined''), w3)"
    unfolding w3_def by (rule save_embeddings_ok[OF w2(1,2)]) (simp_all add: writable_def valid_name_def basename_def)
  have run: "combine_embeddings w sources = (Inr True, w3)"
    by (simp add: combine_embeddings_def ls(1) c s)
  have w3: "mgr w3 = mgr w2" "heap w3 = heap w1"
    "index_files w3 (index_path (mgr w) ''university_combined'') = Some ix"
    "chunk_files w3 (chunks_path (mgr w) ''university_combined'') = Some (concat pks)"
    by (simp_all add: w3_def w2(3,4,5) ls(2))
  have len: "length all = length (concat pks)" using ls(2) by (metis length_map)
  have i1: "index_files w3 (index_path (mgr w3) ''university_combined'') = Some ix"
    by (simp add: w3(1,3) w2(4))
  have i2: "chunk_files w3 (chunks_path (mgr w3) ''university_combined'') = Some (concat pks)"
    by (simp add: w3(1,4) w2(5))
  from load_embeddings_ok[OF i1 i2] obtain w'' cs' where
    ld: "load_embeddings w3 ''university_combined'' = (True, w'')" "chunks (mgr w'') = Some cs'"
        "map (heap w'') cs' = concat pks"
    by blast
  have 1: "chunks (mgr w3) = Some all" by (simp add: w3(1) w2(2))
  have 2: "map (heap w3) all = concat pks" by (simp add: w3(2) ls(2))
  have 3: "length all = sum_list (map length pks)" by (simp add: len length_concat)
  have 4: "index (mgr w3) = Some ix" by (simp add: w3(1) w2(1))
  have 5: "rows ix = vs" by (simp add: ix_def vs)
  have 6: "ntotal ix = length all" using a by (simp add: ntotal_def 5 len)
  have 7: "\<exists>w'' cs'. load_embeddings w3 ''university_combined'' = (True, w'') \<and>
            chunks (mgr w'') = Some cs' \<and> map (heap w'') cs' = concat pks"
    using ld by blast
  show "\<exists>w' all ix. combine_embeddings w sources = (Inr True, w') \<and>
         chunks (mgr w') = Some all \<and> map (heap w') all = concat pks \<and>
         length all = sum_list (map length pks) \<and>
         index (mgr w') = Some ix \<and> rows ix = vs \<and> ntotal ix = length all \<and>
         index_files w' (index_path (mgr w) ''university_combined'') = Some ix \<and>
         chunk_files w' (chunks_path (mgr w) ''university_combined'') = Some (concat pks) \<and>
         (\<exists>w'' cs'. load_embeddings w' ''university_combined'' = (True, w'') \<and>
            chunks (mgr w'') = Some cs' \<and> map (heap w'') cs' = concat pks)"
    using run 1 2 3 4 5 6 w3(3,4) 7 by blast
qed

text \<open>
  The scenario of the specification: \<open>a\<close> with two chunks and \<open>b\<close> with three give
  five; with the missing source \<open>c\<close> the result is False.
\<close>

theorem combine_sources_witness:
  "map (\<lambda>s. chunk_files ex_two (chunks_path (mgr ex_two) s)) [''a'', ''b'']
     = map Some [[ex_heap 0, ex_heap 1], [ex_heap 2, ex_heap 0, ex_heap 1]] \<and>
   fst (combine_embeddings ex_two [''a'', ''b'']) = Inr True \<and>
   map (heap (snd (combine_embeddings ex_two [''a'', ''b''])))
       (the (chunks (mgr (snd (combine_embeddings ex_two [''a'', ''b''])))))
     = [ex_heap 0, ex_heap 1, ex_heap 2, ex_heap 0, ex_heap 1] \<and>
   ntotal (the (index (mgr (snd (combine_embeddings ex_two [''a'', ''b'']))))) = 5 \<and>
   chunk_files ex_two (chunks_path (mgr ex_two) ''c'') = None \<and>
   fst (combine_embeddings ex_two [''a'', ''c'']) = Inr False"
proof -
  let ?pks = "[[ex_heap 0, ex_heap 1], [ex_heap 2, ex_heap 0, ex_heap 1]]"
  let ?vs = "[[1], [1], [1], [1], [1 :: real]]"
  have present: "map (\<lambda>s. chunk_files ex_two (chunks_path (mgr ex_two) s)) [''a'', ''b'']
     = map Some ?pks"
    by (simp add: ex_two_paths ex_two_files)
  have missing: "chunk_files ex_two (chunks_path (mgr ex_two) ''c'') = None"
    by (simp add: ex_two_paths ex_two_files)
  have enc: "model (mgr ex_two) (map chunk_text (concat ?pks)) = Inr ?vs"
    by (simp add: ex_two_def ex_world_def init_manager_def ex_model_def)
  have hyp: "map (\<lambda>s. chunk_files ex_two (chunks_path (mgr ex_two) s)) [''a'', ''b''] = map Some ?pks \<and>
    concat ?pks \<noteq> [] \<and>
    model (mgr ex_two) (map chunk_text (concat ?pks)) = Inr ?vs \<and> length ?vs = length (concat ?pks)"
    using present enc by simp
  from combine_sources[of "[''a'', ''b'']" ex_two ?pks ?vs] hyp obtain w' all ix where
    r: "combine_embeddings ex_two [''a'', ''b''] = (Inr True, w')"
       "chunks (mgr w') = Some all" "map (heap w') all = concat ?pks"
       "length all = sum_list (map length ?pks)"
       "index (mgr w') = Some ix" "ntotal ix = length all"
    by blast
  have m: "\<exists>s\<in>set [''a'', ''c'']. chunk_files ex_two (chunks_path (mgr ex_two) s) = None"
    using missing by simp
  from combine_sources[of "[''a'', ''c'']" ex_two ?pks ?vs] m
  have f: "fst (combine_embeddings ex_two [''a'', ''c'']) = Inr False" by blast
  have "ntotal (the (index (mgr w'))) = 5" using r(4,5,6) by simp
  with r(1,2,3) f present missing show ?thesis by simp
qed

text \<open>
  C9. When the manager holds no index or no chunk sequence, as a new manager does,
  \<^verbatim>\<open>search_similar_chunks\<close> and \<^verbatim>\<open>save_embeddings\<close> raise ValueError (the StateError of
  the specification) and change nothing.
\<close>

theorem state_error:
  assumes "index (mgr w) = None \<or> chunks (mgr w) = None"
  shows "search_similar_chunks fs w q k = (Inl ValueError, w) \<and>
         save_embeddings w p = (Inl ValueError, w) \<and>
         index (init_manager m) = None \<and> chunks (init_manager m) = None"
  using assms
  by (auto simp: search_similar_chunks_def save_embeddings_def init_manager_def
      split: option.splits)

text \<open>
  Search and persist on the new manager.
\<close>

theorem state_error_witness:
  "index (mgr ex_world) = None \<and>
   search_similar_chunks ex_search ex_world ''q'' 15 = (Inl ValueError, ex_world) \<and>
   save_embeddings ex_world default_prefix = (Inl ValueError, ex_world)"
proof -
  have h: "index (mgr ex_world) = None" by (simp add: ex_world_def init_manager_def)
  then have "index (mgr ex_world) = None \<or> chunks (mgr ex_world) = None" by simp
  from state_error[OF this, of ex_search "''q''" 15 default_prefix ex_model] h
  show ?thesis by simp
qed

text \<open>
  C10. When \<^verbatim>\<open>combine_embeddings\<close> returns False, the chunk file of some source is
  missing, the manager (index, chunk sequence and all) is what it was, no file has been
  written, and every chunk object that existed before is unchanged.
\<close>

theorem combine_failure_frame:
  assumes "combine_embeddings w sources = (Inr False, w')"
  shows "(\<exists>s\<in>set sources. chunk_files w (chunks_path (mgr w) s) = None) \<and>
         mgr w' = mgr w \<and> index_files w' = index_files w \<and> chunk_files w' = chunk_files w \<and>
         (\<forall>a<next_addr w. heap w' a = heap w a)"
proof -
  from combine_embeddings_False[OF assms] have ls: "load_sources w sources [] = (None, w')" .
  then have "fst (load_sources w sources []) = None" by simp
  with load_sources_missing[of w sources "[]"]
  have "\<exists>s\<in>set sources. chunk_files w (chunks_path (mgr w) s) = None" by simp
  with load_sources_frame[OF ls] show ?thesis by simp
qed

text \<open>
  Combining \<open>a\<close> with the missing \<open>c\<close>: the chunks of \<open>a\<close> have been loaded when the
  miss is found, and nothing that was there before has changed.
\<close>

theorem combine_failure_frame_witness:
  "fst (combine_embeddings ex_two [''a'', ''c'']) = Inr False \<and>
   chunk_files ex_two (chunks_path (mgr ex_two) ''c'') = None \<and>
   mgr (snd (combine_embeddings ex_two [''a'', ''c''])) = mgr ex_two \<and>
   index_files (snd (combine_embeddings ex_two [''a'', ''c''])) = index_files ex_two \<and>
   chunk_files (snd (combine_embeddings ex_two [''a'', ''c''])) = chunk_files ex_two \<and>
   heap (snd (combine_embeddings ex_two [''a'', ''c''])) 2 = heap ex_two 2"
proof -
  have missing: "chunk_files ex_two (chunks_path (mgr ex_two) ''c'') = None"
    by (simp add: ex_two_paths ex_two_files)
  then have "\<exists>s\<in>set [''a'', ''c'']. chunk_files ex_two (chunks_path (mgr ex_two) s) = None"
    by simp
  then have f: "fst (combine_embeddings ex_two [''a'', ''c'']) = Inr False"
    by (rule combine_embeddings_missing)
  then have run: "combine_embeddings ex_two [''a'', ''c''] =
      (Inr False, snd (combine_embeddings ex_two [''a'', ''c'']))"
    by (metis prod.collapse)
  have n: "(2 :: nat) < next_addr ex_two" by (simp add: ex_two_def ex_world_def)
  from combine_failure_frame[OF run] n f missing show ?thesis by simp
qed


end
